theory Spec2Isabelle
  imports Main "HOL-Library.Word"
begin

section \<open>The connection engine of the Tarantool client (connection.go)\<close>

text \<open>
  The Go source is a single-socket IPROTO client: a \<open>Connection\<close> struct, a registry of
  pending futures keyed by request id, a frame reader, the dial / greeting /
  authentication handshake and the reader goroutine.  Every function below keeps the
  name and the branch order of the Go function it embeds.  Go errors are values
  (\<open>nil\<close> is \<open>None\<close>), Go panics are the constructor \<open>Panic\<close> of the result type.
\<close>

subsection \<open>Bytes, errors, results\<close>

type_synonym byte = "8 word"

text \<open>A Go \<open>error\<close> is identified with its message (\<open>err.Error()\<close>).\<close>

type_synonym go_error = string

definition io_EOF :: go_error where
  "io_EOF = ''EOF''"

definition io_ErrUnexpectedEOF :: go_error where
  "io_ErrUnexpectedEOF = ''unexpected EOF''"

text \<open>
  The outcome of running a Go function: it returns (\<open>Done\<close>), it panics, or, for the
  loops of the source that may run forever (\<open>createConnection\<close> and the reader
  goroutine), the model ran out of fuel.
\<close>

datatype 'a exec = Done 'a | Panic string | OutOfFuel

definition bind_exec :: "'a exec \<Rightarrow> ('a \<Rightarrow> 'b exec) \<Rightarrow> 'b exec" where
  "bind_exec m f = (case m of Done x \<Rightarrow> f x | Panic msg \<Rightarrow> Panic msg | OutOfFuel \<Rightarrow> OutOfFuel)"

text \<open>Go's conversion \<open>string(bytes)\<close>: the same bytes, read as characters.\<close>

definition go_string :: "byte list \<Rightarrow> string" where
  "go_string bs = map (\<lambda>b. char_of (unat b)) bs"

subsection \<open>Byte streams: \<open>io.Reader\<close> and \<open>io.ReadFull\<close>\<close>

text \<open>
  An \<open>io.Reader\<close> is the sequence of chunks its successive \<open>Read\<close> calls can still deliver
  (for a TCP socket: the segments as they arrive) and the error it reports once they are
  used up (\<open>io.EOF\<close>, or a network error).
\<close>

record stream =
  pending :: "byte list list"
  fail :: go_error

definition bytes_of :: "stream \<Rightarrow> byte list" where
  "bytes_of s = concat (pending s)"

text \<open>
  \<open>Read(buf)\<close> with \<open>len(buf) = n\<close>: at most \<open>n\<close> bytes of the first chunk; the error once
  nothing is left.  A short count is not an error.
\<close>

definition stream_Read :: "nat \<Rightarrow> stream \<Rightarrow> (byte list \<times> go_error option) \<times> stream" where
  "stream_Read n s =
     (case pending s of
        [] \<Rightarrow> (([], Some (fail s)), s)
      | c # cs \<Rightarrow>
          if length c \<le> n then ((c, None), s\<lparr>pending := cs\<rparr>)
          else ((take n c, None), s\<lparr>pending := drop n c # cs\<rparr>))"

text \<open>
  The loop of \<open>io.ReadAtLeast\<close>, \<open>for n < min && err == nil { nn, err = r.Read(buf[n:]) }\<close>,
  on the chunks: the bytes read, the chunks left, and whether \<open>n\<close> bytes were reached.
\<close>

fun fill :: "nat \<Rightarrow> byte list list \<Rightarrow> byte list \<times> byte list list \<times> bool" where
  "fill 0 cs = ([], cs, True)"
| "fill (Suc n) [] = ([], [], False)"
| "fill (Suc n) (c # cs) =
     (if length c < Suc n then
        (case fill (Suc n - length c) cs of (got, rest, ok) \<Rightarrow> (c @ got, rest, ok))
      else if length c = Suc n then (c, cs, True)
      else (take (Suc n) c, drop (Suc n) c # cs, True))"

text \<open>
  \<open>io.ReadFull(r, buf)\<close> with \<open>len(buf) = n\<close>: no error exactly when \<open>n\<close> bytes were read;
  otherwise the reader's error, with \<open>io.EOF\<close> after a partial read turned into
  \<open>io.ErrUnexpectedEOF\<close>.
\<close>

definition ReadFull :: "nat \<Rightarrow> stream \<Rightarrow> (byte list \<times> go_error option) \<times> stream" where
  "ReadFull n s =
     (case fill n (pending s) of
        (got, rest, ok) \<Rightarrow>
          ((got,
            if ok then None
            else if got = [] then Some (fail s)
            else if fail s = io_EOF then Some io_ErrUnexpectedEOF
            else Some (fail s)),
           s\<lparr>pending := rest\<rparr>))"

subsection \<open>The frame reader \<open>read\<close>\<close>

text \<open>
  Modelled from the spec: the constant \<open>PacketLengthBytes\<close> is declared outside the
  files at hand; the spec gives the length prefix as 5 bytes (the marker \<open>0xCE\<close> and a
  big-endian 32-bit length).
\<close>

definition PacketLengthBytes :: nat where
  "PacketLengthBytes = 5"

text \<open>
  \<open>length = (int(lenbuf[1]) << 24) + (int(lenbuf[2]) << 16) + (int(lenbuf[3]) << 8) + int(lenbuf[4])\<close>.
  Go's \<open>int\<close> is taken as 64 bits wide; the sum stays below \<open>2 ^ 32\<close> (lemma
  \<open>frame_length_bounds\<close>), so it never wraps.
\<close>

definition frame_length :: "byte list \<Rightarrow> int" where
  "frame_length lenbuf =
     push_bit 24 (uint (lenbuf ! 1)) + push_bit 16 (uint (lenbuf ! 2))
       + push_bit 8 (uint (lenbuf ! 3)) + uint (lenbuf ! 4)"

text \<open>
  \<open>read\<close> returns \<open>(response, err)\<close>; both callers look at \<open>response\<close> only when \<open>err\<close> is
  \<open>nil\<close>, so the result is a sum, together with the reader as \<open>read\<close> leaves it.
\<close>

definition read :: "stream \<Rightarrow> (go_error + byte list) \<times> stream" where
  "read r =
     (case ReadFull PacketLengthBytes r of
        ((lenbuf, Some err), r1) \<Rightarrow> (Inl err, r1)
      | ((lenbuf, None), r1) \<Rightarrow>
          if lenbuf ! 0 \<noteq> 0xce then (Inl ''Wrong reponse header'', r1)
          else
            let length = frame_length lenbuf in
            if length = 0 then (Inl ''Response should not be 0 length'', r1)
            else
              (case ReadFull (nat length) r1 of
                 ((response, Some err), r2) \<Rightarrow> (Inl err, r2)
               | ((response, None), r2) \<Rightarrow> (Inr response, r2)))"

text \<open>
  The length prefix in the spec's words: four bytes, most significant first, read as an
  unsigned 32-bit number.
\<close>

definition be32 :: "byte \<Rightarrow> byte \<Rightarrow> byte \<Rightarrow> byte \<Rightarrow> nat" where
  "be32 b1 b2 b3 b4 = foldl (\<lambda>acc b. acc * 256 + unat b) 0 [b1, b2, b3, b4]"

subsection \<open>Sockets\<close>

text \<open>
  A \<open>net.Conn\<close> together with the \<open>bufio.Writer\<close> that \<open>dial\<close> wraps around it.  The peer
  is a script: what it will send (\<open>inbound\<close>) and whether writing to it or closing it
  fails.  \<open>bufio.NewReaderSize\<close> only adds a buffer in front of the socket; reading
  through it delivers the same bytes in the same order, so the reader handle reads
  \<open>inbound\<close> directly.
\<close>

record net_conn =
  inbound :: stream
  outbound :: "byte list"
  write_err :: "go_error option"
  close_err :: "go_error option"
  is_closed :: bool
  wbuf :: "byte list"
  wr_err :: "go_error option"

definition net_ErrClosed :: go_error where
  "net_ErrClosed = ''use of closed network connection''"

definition net_Close :: "net_conn \<Rightarrow> go_error option \<times> net_conn" where
  "net_Close s =
     (if is_closed s then (Some net_ErrClosed, s)
      else (close_err s, s\<lparr>is_closed := True\<rparr>))"

definition net_Read :: "nat \<Rightarrow> net_conn \<Rightarrow> (byte list \<times> go_error option) \<times> net_conn" where
  "net_Read n s =
     (if is_closed s then (([], Some net_ErrClosed), s)
      else (case stream_Read n (inbound s) of (res, i) \<Rightarrow> (res, s\<lparr>inbound := i\<rparr>)))"

definition net_Write :: "byte list \<Rightarrow> net_conn \<Rightarrow> (nat \<times> go_error option) \<times> net_conn" where
  "net_Write data s =
     (if is_closed s then ((0, Some net_ErrClosed), s)
      else (case write_err s of
              Some e \<Rightarrow> ((0, Some e), s)
            | None \<Rightarrow> ((length data, None), s\<lparr>outbound := outbound s @ data\<rparr>)))"

text \<open>
  \<open>bufio.Writer\<close>, by its contract: \<open>Write\<close> collects the bytes, \<open>Flush\<close> hands them to the
  socket, and an error of the socket sticks to the writer.  The buffer is taken as
  large enough for what is written between two flushes.
\<close>

definition bufio_Write :: "byte list \<Rightarrow> net_conn \<Rightarrow> (nat \<times> go_error option) \<times> net_conn" where
  "bufio_Write data s =
     (case wr_err s of
        Some e \<Rightarrow> ((0, Some e), s)
      | None \<Rightarrow> ((length data, None), s\<lparr>wbuf := wbuf s @ data\<rparr>))"

definition bufio_Flush :: "net_conn \<Rightarrow> go_error option \<times> net_conn" where
  "bufio_Flush s =
     (case wr_err s of
        Some e \<Rightarrow> (Some e, s)
      | None \<Rightarrow>
          if wbuf s = [] then (None, s)
          else (case net_Write (wbuf s) s of
                  ((n, Some e), s1) \<Rightarrow> (Some e, s1\<lparr>wr_err := Some e\<rparr>)
                | ((n, None), s1) \<Rightarrow> (None, s1\<lparr>wbuf := []\<rparr>)))"

text \<open>The frame reader applied to the reader handle of a socket.\<close>

definition sock_read :: "net_conn \<Rightarrow> (go_error + byte list) \<times> net_conn" where
  "sock_read s =
     (if is_closed s then (fst (read \<lparr>pending = [], fail = net_ErrClosed\<rparr>), s)
      else (case read (inbound s) of (res, i) \<Rightarrow> (res, s\<lparr>inbound := i\<rparr>)))"

subsection \<open>Requests, responses, futures\<close>

text \<open>Go's \<open>interface{}\<close> values as they occur in request bodies.\<close>

datatype msg_value = VNil | VInt int | VStr string | VArr "msg_value list"

text \<open>
  Modelled from the spec: the opcode and the body keys are constants declared outside
  the files at hand; the spec's tables give AUTH = 7, user name = 0x23, tuple = 0x21.
\<close>

definition AuthRequest :: nat where
  "AuthRequest = 7"

definition KeyUserName :: nat where
  "KeyUserName = 0x23"

definition KeyTuple :: nat where
  "KeyTuple = 0x21"

text \<open>
  Modelled from the spec: the structs \<open>Request\<close>, \<open>Response\<close> and \<open>Future\<close> are declared
  outside the files at hand.  The fields are those connection.go touches
  (\<open>request.body\<close>, \<open>resp.buf\<close>, \<open>resp.RequestId\<close>, \<open>fut.resp\<close>, \<open>fut.err\<close>, \<open>fut.c\<close>) and those
  the spec names (opcode, request id, response code and error message).  The channel
  \<open>fut.c\<close> carries no values; what matters is whether it has been closed, and closing a
  closed channel panics.
\<close>

record Request =
  req_requestId :: "32 word"
  requestCode :: nat
  body :: "nat \<rightharpoonup> msg_value"

record Response =
  RequestId :: "32 word"
  Code :: "32 word"
  Error :: string
  Data :: "msg_value list"
  buf :: "byte list"

record Future =
  fut_resp :: "Response option"
  fut_err :: "go_error option"
  fut_c_closed :: bool

text \<open>\<open>Response{buf: smallBuf{b: resp_bytes}}\<close>: every other field has its zero value.\<close>

definition new_Response :: "byte list \<Rightarrow> Response" where
  "new_Response resp_bytes =
     \<lparr>RequestId = 0, Code = 0, Error = [], Data = [], buf = resp_bytes\<rparr>"

text \<open>
  The functions of the package that connection.go calls and that are not in the files
  at hand are parameters of the model: \<open>scramble\<close> (auth.go), \<open>request.pack\<close> (request.go),
  \<open>resp.decodeHeader\<close> and \<open>resp.decodeBody\<close> (response.go).
\<close>

record deps =
  scramble :: "string \<Rightarrow> string \<Rightarrow> go_error + byte list"
  pack :: "Request \<Rightarrow> go_error + byte list"
  decodeHeader :: "Response \<Rightarrow> go_error + Response"
  decodeBody :: "Response \<Rightarrow> go_error + Response"

subsection \<open>The connection and its world\<close>

record Greeting =
  greeting_version :: string
  greeting_auth :: string

record Opts =
  Timeout :: nat
  Reconnect :: nat
  User :: string
  Pass :: string

text \<open>
  The struct \<open>Connection\<close>.  \<open>connection\<close>, \<open>r\<close> and \<open>w\<close> are handles (addresses in the socket
  store; \<open>None\<close> is \<open>nil\<close>); \<open>requests\<close> is the Go map as the list of its entries, in the
  order a \<open>range\<close> visits them: any order, with distinct keys; it maps a request id to
  the address of its future.  The channel \<open>control\<close> is the flag whether it was closed.
  The mutex is not a field: each function below is one critical section, run to its end.
\<close>

record Connection =
  addr :: string
  connection :: "nat option"
  conn_r :: "nat option"
  conn_w :: "nat option"
  requestId :: "32 word"
  Greeting :: Greeting
  requests :: "(32 word \<times> nat) list"
  packets :: "byte list list"
  control_closed :: bool
  opts :: Opts
  closed :: bool

text \<open>
  What the functions act on: the connection, the store of sockets, the store of
  futures, the network (what the successive \<open>net.Dial\<close> calls to an address give: an
  error, or a peer), and the lines written by \<open>log.Printf\<close> (format and argument).
\<close>

record world =
  conn :: Connection
  sockets :: "nat \<Rightarrow> net_conn"
  next_sock :: nat
  futures :: "nat \<Rightarrow> Future"
  network :: "string \<Rightarrow> (go_error + net_conn) list"
  log_lines :: "(string \<times> nat) list"

subsection \<open>\<open>Connect\<close>, \<open>Close\<close>, \<open>closeConnection\<close>, \<open>nextRequestId\<close>\<close>

datatype goroutine = Writer | Reader

text \<open>
  \<open>Connect\<close> builds the struct, starts \<open>go conn.writer()\<close> and \<open>go conn.reader()\<close> and
  returns \<open>conn, err\<close>, with \<open>err\<close> never assigned.  Its body touches neither the network
  nor any other state, so the model takes none: the result is the struct, the error and
  the goroutines started.
\<close>

definition Connect :: "string \<Rightarrow> Opts \<Rightarrow> (Connection \<times> go_error option) \<times> goroutine list" where
  "Connect a os =
     ((\<lparr>addr = a, connection = None, conn_r = None, conn_w = None, requestId = 0,
        Greeting = \<lparr>greeting_version = [], greeting_auth = []\<rparr>,
        requests = [], packets = [], control_closed = False, opts = os,
        closed = False\<rparr>,
       None),
      [Writer, Reader])"

text \<open>\<open>atomic.AddUint32(&conn.requestId, 1)\<close>: the new value, modulo \<open>2 ^ 32\<close>.\<close>

definition nextRequestId :: "Connection \<Rightarrow> 32 word \<times> Connection" where
  "nextRequestId c = (requestId c + 1, c\<lparr>requestId := requestId c + 1\<rparr>)"

text \<open>Go's \<open>delete(m, k)\<close> on the entries of a map.\<close>

definition map_delete :: "32 word \<Rightarrow> (32 word \<times> nat) list \<Rightarrow> (32 word \<times> nat) list" where
  "map_delete k m = filter (\<lambda>e. fst e \<noteq> k) m"

text \<open>
  The loop \<open>for rid, fut := range conn.requests\<close> of \<open>closeConnection\<close>, over the entries
  still to visit.  The body deletes only the entry it is at, so no entry still to come
  disappears before it is reached.
\<close>

fun fail_requests :: "go_error \<Rightarrow> (32 word \<times> nat) list \<Rightarrow> world \<Rightarrow> world exec" where
  "fail_requests neterr [] s = Done s"
| "fail_requests neterr ((rid, fut) # todo) s =
     (let s1 = s\<lparr>futures := (futures s)(fut := (futures s fut)\<lparr>fut_err := Some neterr\<rparr>)\<rparr> in
      if fut_c_closed (futures s1 fut) then Panic ''close of closed channel''
      else
        let s2 = s1\<lparr>futures := (futures s1)(fut := (futures s1 fut)\<lparr>fut_c_closed := True\<rparr>)\<rparr>;
            s3 = s2\<lparr>conn := (conn s2)\<lparr>requests := map_delete rid (requests (conn s2))\<rparr>\<rparr>
        in fail_requests neterr todo s3)"

definition closeConnection :: "go_error \<Rightarrow> world \<Rightarrow> (go_error option \<times> world) exec" where
  "closeConnection neterr s =
     (case connection (conn s) of
        None \<Rightarrow> Done (None, s)
      | Some c \<Rightarrow>
          (case net_Close (sockets s c) of
             (err, k) \<Rightarrow>
               let s1 = s\<lparr>sockets := (sockets s)(c := k)\<rparr>;
                   s2 = s1\<lparr>conn := (conn s1)\<lparr>connection := None, conn_r := None, conn_w := None\<rparr>\<rparr>
               in bind_exec (fail_requests neterr (requests (conn s2)) s2)
                    (\<lambda>s3. Done (err, s3))))"

definition Close :: "world \<Rightarrow> (go_error option \<times> world) exec" where
  "Close s =
     (let s1 = s\<lparr>conn := (conn s)\<lparr>closed := True\<rparr>\<rparr> in
      if control_closed (conn s1) then Panic ''close of closed channel''
      else closeConnection ''client closed connection''
             (s1\<lparr>conn := (conn s1)\<lparr>control_closed := True\<rparr>\<rparr>))"

subsection \<open>The handshake: \<open>dial\<close>, \<open>auth\<close>, \<open>writeAuthRequest\<close>, \<open>readAuthResponse\<close>\<close>

text \<open>
  Modelled from the spec: \<open>NewRequest\<close> is defined outside the files at hand
  (request.go).  By the spec a request is an opcode and a body map, and ids come from
  the connection's atomic counter; \<open>request.pack()\<close> takes no id, so the request carries
  its own, taken here with \<open>nextRequestId\<close> when the request is made.
\<close>

definition NewRequest :: "nat \<Rightarrow> Connection \<Rightarrow> Request \<times> Connection" where
  "NewRequest code c =
     (case nextRequestId c of
        (i, c1) \<Rightarrow> (\<lparr>req_requestId = i, requestCode = code, body = Map.empty\<rparr>, c1))"

text \<open>\<open>write\<close> is only ever given the \<open>bufio.Writer\<close> of a socket.\<close>

definition "write" :: "byte list \<Rightarrow> net_conn \<Rightarrow> (go_error option \<times> net_conn) exec" where
  "write data k =
     (case bufio_Write data k of
        ((l, Some err), k1) \<Rightarrow> Done (Some err, k1)
      | ((l, None), k1) \<Rightarrow>
          if l \<noteq> length data then Panic ''Wrong length writed'' else Done (None, k1))"

definition writeAuthRequest ::
  "deps \<Rightarrow> nat \<Rightarrow> byte list \<Rightarrow> world \<Rightarrow> (go_error option \<times> world) exec" where
  "writeAuthRequest d w scr s =
     (case NewRequest AuthRequest (conn s) of
        (request0, c1) \<Rightarrow>
          let s1 = s\<lparr>conn := c1\<rparr>;
              request1 = request0\<lparr>body := (body request0)(KeyUserName \<mapsto> VStr (User (opts (conn s1))))\<rparr>;
              request = request1\<lparr>body := (body request1)
                          (KeyTuple \<mapsto> VArr [VStr ''chap-sha1'', VStr (go_string scr)])\<rparr>
          in (case pack d request of
                Inl e \<Rightarrow> Done (Some (''auth: pack error '' @ e), s1)
              | Inr packet \<Rightarrow>
                  bind_exec (write packet (sockets s1 w))
                    (\<lambda>(err, k1).
                       let s2 = s1\<lparr>sockets := (sockets s1)(w := k1)\<rparr> in
                       case err of
                         Some e \<Rightarrow> Done (Some (''auth: write error '' @ e), s2)
                       | None \<Rightarrow>
                           (case bufio_Flush (sockets s2 w) of
                              (Some e, k2) \<Rightarrow>
                                Done (Some (''auth: flush error '' @ e),
                                      s2\<lparr>sockets := (sockets s2)(w := k2)\<rparr>)
                            | (None, k2) \<Rightarrow>
                                Done (None, s2\<lparr>sockets := (sockets s2)(w := k2)\<rparr>)))))"

definition readAuthResponse :: "deps \<Rightarrow> nat \<Rightarrow> world \<Rightarrow> go_error option \<times> world" where
  "readAuthResponse d r s =
     (case sock_read (sockets s r) of
        (res, k) \<Rightarrow>
          let s1 = s\<lparr>sockets := (sockets s)(r := k)\<rparr> in
          case res of
            Inl e \<Rightarrow> (Some (''auth: read error '' @ e), s1)
          | Inr resp_bytes \<Rightarrow>
              (case decodeHeader d (new_Response resp_bytes) of
                 Inl e \<Rightarrow> (Some (''auth: decode response header error '' @ e), s1)
               | Inr resp \<Rightarrow>
                   (case decodeBody d resp of
                      Inl e \<Rightarrow> (Some (''auth: decode response body error '' @ e), s1)
                    | Inr resp1 \<Rightarrow> (None, s1))))"

definition auth ::
  "deps \<Rightarrow> nat option \<Rightarrow> nat option \<Rightarrow> world \<Rightarrow> (go_error option \<times> world) exec" where
  "auth d r w s =
     (if User (opts (conn s)) = [] then Done (None, s)
      else
        (case (r, w) of
           (Some rh, Some wh) \<Rightarrow>
             if greeting_auth (Greeting (conn s)) = [] then Done (Some ''auth: empty greeting'', s)
             else
               (case scramble d (greeting_auth (Greeting (conn s))) (Pass (opts (conn s))) of
                  Inl e \<Rightarrow> Done (Some (''auth: scrambling failure '' @ e), s)
                | Inr scr \<Rightarrow>
                    bind_exec (writeAuthRequest d wh scr s)
                      (\<lambda>(err, s1).
                         case err of
                           Some e \<Rightarrow> Done (Some e, s1)
                         | None \<Rightarrow> Done (readAuthResponse d rh s1)))
         | _ \<Rightarrow> Done (Some ''auth: reader/writer not ready'', s)))"

text \<open>
  \<open>net.Dial("tcp", addr)\<close>: the next outcome the network has for the address; a new
  socket gets a new handle.  An address nothing answers on refuses the connection.
\<close>

definition fresh_socket :: "net_conn \<Rightarrow> net_conn" where
  "fresh_socket p = p\<lparr>outbound := [], is_closed := False, wbuf := [], wr_err := None\<rparr>"

definition net_Dial :: "string \<Rightarrow> world \<Rightarrow> (go_error + nat) \<times> world" where
  "net_Dial a s =
     (case network s a of
        [] \<Rightarrow> (Inl ''dial tcp: connection refused'', s)
      | Inl e # later \<Rightarrow> (Inl e, s\<lparr>network := (network s)(a := later)\<rparr>)
      | Inr p # later \<Rightarrow>
          (Inr (next_sock s),
           s\<lparr>network := (network s)(a := later),
             sockets := (sockets s)(next_sock s := fresh_socket p),
             next_sock := Suc (next_sock s)\<rparr>))"

text \<open>
  \<open>connection.Read(greeting)\<close> fills a prefix of the 128 zero bytes of \<open>greeting\<close> (the
  source notes \<open>TODO: read all\<close>); the reader \<open>r\<close> and the writer \<open>w\<close> are the handle of the
  new socket.  \<open>SetNoDelay\<close> changes nothing that is modelled.
\<close>

definition dial :: "deps \<Rightarrow> world \<Rightarrow> (go_error option \<times> world) exec" where
  "dial d s =
     (case net_Dial (addr (conn s)) s of
        (Inl err, s1) \<Rightarrow> Done (Some err, s1)
      | (Inr c, s1) \<Rightarrow>
          (case net_Read 128 (sockets s1 c) of
             ((got, Some err), k1) \<Rightarrow>
               Done (Some err, s1\<lparr>sockets := (sockets s1)(c := snd (net_Close k1))\<rparr>)
           | ((got, None), k1) \<Rightarrow>
               let greeting = got @ replicate (128 - length got) 0;
                   s2 = s1\<lparr>sockets := (sockets s1)(c := k1),
                          conn := (conn s1)\<lparr>Greeting :=
                            \<lparr>greeting_version = go_string (take 64 greeting),
                             greeting_auth = go_string (take 44 (drop 64 greeting))\<rparr>\<rparr>\<rparr>
               in bind_exec (auth d (Some c) (Some c) s2)
                    (\<lambda>(err, s3).
                       case err of
                         Some e \<Rightarrow>
                           Done (Some e,
                                 s3\<lparr>sockets := (sockets s3)(c := snd (net_Close (sockets s3 c)))\<rparr>)
                       | None \<Rightarrow>
                           Done (None,
                                 s3\<lparr>conn := (conn s3)\<lparr>connection := Some c, conn_r := Some c,
                                                       conn_w := Some c\<rparr>\<rparr>))))"

subsection \<open>\<open>createConnection\<close> and the reader goroutine\<close>

text \<open>
  The loop \<open>for conn.connection == nil\<close> of \<open>createConnection\<close> runs as long as \<open>dial\<close>
  fails and \<open>Reconnect\<close> is positive, possibly forever; \<open>fuel\<close> bounds the number of
  \<open>dial\<close>s.  \<open>time.Sleep\<close> changes nothing that is modelled.  The result is \<open>(r, w)\<close>.
\<close>

fun createConnection ::
  "nat \<Rightarrow> deps \<Rightarrow> world \<Rightarrow> ((nat option \<times> nat option) \<times> world) exec" where
  "createConnection fuel d s =
     (if connection (conn s) \<noteq> None then Done ((conn_r (conn s), conn_w (conn s)), s)
      else if closed (conn s) then Done ((None, None), s)
      else
        (case fuel of
           0 \<Rightarrow> OutOfFuel
         | Suc fuel1 \<Rightarrow>
             bind_exec (dial d s)
               (\<lambda>(err, s1).
                  if err = None then Done ((conn_r (conn s1), conn_w (conn s1)), s1)
                  else if Reconnect (opts (conn s1)) > 0 then createConnection fuel1 d s1
                  else Done ((None, None), s1))))"

datatype loop_ctl = Continue | Return

text \<open>
  One iteration of the \<open>for\<close> loop of \<open>reader\<close>: \<open>Return\<close> when the goroutine ends,
  \<open>Continue\<close> when it goes on to the next iteration (by \<open>continue\<close> or at the end of the
  body).
\<close>

definition reader_step :: "nat \<Rightarrow> deps \<Rightarrow> world \<Rightarrow> (loop_ctl \<times> world) exec" where
  "reader_step fuel d s =
     bind_exec
       (case conn_r (conn s) of
          Some r \<Rightarrow> Done (Some r, s)
        | None \<Rightarrow> bind_exec (createConnection fuel d s) (\<lambda>((r, w), s1). Done (r, s1)))
       (\<lambda>(r, s1).
          case r of
            None \<Rightarrow> Done (Return, s1)
          | Some rh \<Rightarrow>
              (case sock_read (sockets s1 rh) of
                 (res, k) \<Rightarrow>
                   let s2 = s1\<lparr>sockets := (sockets s1)(rh := k)\<rparr> in
                   case res of
                     Inl err \<Rightarrow>
                       bind_exec (closeConnection err s2) (\<lambda>(e, s3). Done (Continue, s3))
                   | Inr resp_bytes \<Rightarrow>
                       (case decodeHeader d (new_Response resp_bytes) of
                          Inl err \<Rightarrow>
                            bind_exec (closeConnection err s2) (\<lambda>(e, s3). Done (Continue, s3))
                        | Inr resp \<Rightarrow>
                            (case map_of (requests (conn s2)) (RequestId resp) of
                               Some fut \<Rightarrow>
                                 let s3 = s2\<lparr>conn := (conn s2)\<lparr>requests :=
                                            map_delete (RequestId resp) (requests (conn s2))\<rparr>\<rparr>;
                                     s4 = s3\<lparr>futures := (futures s3)
                                            (fut := (futures s3 fut)\<lparr>fut_resp := Some resp\<rparr>)\<rparr>
                                 in if fut_c_closed (futures s4 fut)
                                    then Panic ''close of closed channel''
                                    else Done (Continue,
                                           s4\<lparr>futures := (futures s4)
                                             (fut := (futures s4 fut)\<lparr>fut_c_closed := True\<rparr>)\<rparr>)
                             | None \<Rightarrow>
                                 Done (Continue,
                                   s2\<lparr>log_lines := log_lines s2 @
                                     [(''tarantool: unexpected requestId (%d) in response'',
                                       unat (RequestId resp))]\<rparr>)))))"

fun reader :: "nat \<Rightarrow> deps \<Rightarrow> world \<Rightarrow> world exec" where
  "reader 0 d s = OutOfFuel"
| "reader (Suc fuel) d s =
     bind_exec (reader_step fuel d s)
       (\<lambda>(ctl, s1). case ctl of Return \<Rightarrow> Done s1 | Continue \<Rightarrow> reader fuel d s1)"

subsection \<open>The pool's routing\<close>

text \<open>
  Modelled from the spec: the pool (package connection_pool) is not among the files at
  hand, only its test is.  The routing modes are those of the spec's section 4.6.
\<close>

datatype Mode = ANY | RW | RO | PreferRW | PreferRO

text \<open>
  Modelled from the spec: an instance of the pool has its address, the role bit of the
  last probe (\<open>ro\<close>) and whether it is live (connected and healthy).
\<close>

record pool_instance =
  inst_addr :: string
  inst_ro :: bool
  inst_live :: bool

text \<open>
  Modelled from the spec: the pool holds its instances and one round-robin cursor for
  each mode; \<open>delegated\<close> records which connection was handed which operation.
\<close>

record pool =
  instances :: "pool_instance list"
  cursor :: "Mode \<Rightarrow> nat"
  delegated :: "(string \<times> string) list"

text \<open>
  Modelled from the spec: the RW set is the instances last observed with \<open>ro == false\<close>.
\<close>

definition rw_set :: "pool \<Rightarrow> pool_instance list" where
  "rw_set p = filter (\<lambda>i. \<not> inst_ro i) (instances p)"

text \<open>
  Modelled from the spec: the RO set is the instances last observed with \<open>ro == true\<close>.
\<close>

definition ro_set :: "pool \<Rightarrow> pool_instance list" where
  "ro_set p = filter inst_ro (instances p)"

text \<open>
  Modelled from the spec: the two routing errors, with the messages the spec and the
  tests \<open>TestRoundRobinStrategy_NoMaster\<close> and \<open>TestRoundRobinStrategy_NoReplica\<close> give.
\<close>

definition ErrNoRwInstance :: go_error where
  "ErrNoRwInstance = ''Can't find rw instance in pool''"

definition ErrNoRoInstance :: go_error where
  "ErrNoRoInstance = ''Can't find ro instance in pool''"

text \<open>
  Modelled from the spec: selection is round-robin over the live members of the set;
  the cursor of the mode advances on each selection; an empty set gives the error.
\<close>

definition round_robin :: "Mode \<Rightarrow> go_error \<Rightarrow> pool_instance list \<Rightarrow> pool \<Rightarrow> (go_error + pool_instance) \<times> pool" where
  "round_robin mode e members p =
     (let live = filter inst_live members in
      if live = [] then (Inl e, p)
      else (Inr (live ! (cursor p mode mod length live)),
            p\<lparr>cursor := (cursor p)(mode := cursor p mode + 1)\<rparr>))"

text \<open>
  Modelled from the spec: \<open>ANY\<close> takes any connected instance, \<open>RW\<close> and \<open>RO\<close> their set,
  \<open>PreferRW\<close> the RW set if it has a live member and the RO set otherwise, \<open>PreferRO\<close> the
  other way round.  The spec names no error for \<open>ANY\<close> without a live instance; the one
  it has for a pool without connections is used.
\<close>

definition route :: "Mode \<Rightarrow> pool \<Rightarrow> (go_error + pool_instance) \<times> pool" where
  "route mode p =
     (case mode of
        ANY \<Rightarrow> round_robin mode ''no active connections'' (instances p) p
      | RW \<Rightarrow> round_robin mode ErrNoRwInstance (rw_set p) p
      | RO \<Rightarrow> round_robin mode ErrNoRoInstance (ro_set p) p
      | PreferRW \<Rightarrow>
          if filter inst_live (rw_set p) \<noteq> [] then round_robin mode ErrNoRwInstance (rw_set p) p
          else round_robin mode ErrNoRoInstance (ro_set p) p
      | PreferRO \<Rightarrow>
          if filter inst_live (ro_set p) \<noteq> [] then round_robin mode ErrNoRoInstance (ro_set p) p
          else round_robin mode ErrNoRwInstance (rw_set p) p)"

text \<open>
  Modelled from the spec: every \<open>Pool.Op(..., mode)\<close> picks a connection by mode and
  delegates to that connection's \<open>Op\<close> (the parameter \<open>conn_op\<close>); a routing error is
  returned as it is.
\<close>

definition pool_op ::
  "(string \<Rightarrow> string \<Rightarrow> go_error + msg_value list) \<Rightarrow> string \<Rightarrow> Mode \<Rightarrow> pool
     \<Rightarrow> (go_error + msg_value list) \<times> pool" where
  "pool_op conn_op op mode p =
     (case route mode p of
        (Inl e, p1) \<Rightarrow> (Inl e, p1)
      | (Inr i, p1) \<Rightarrow>
          (conn_op (inst_addr i) op, p1\<lparr>delegated := delegated p1 @ [(inst_addr i, op)]\<rparr>))"

subsection \<open>Auxiliary notions for the statements\<close>

text \<open>
  The world \<open>closeConnection\<close> leaves behind when every future of \<open>todo\<close> was pending:
  each of them completed with the error, each entry removed.
\<close>

definition fail_result :: "go_error \<Rightarrow> (32 word \<times> nat) list \<Rightarrow> world \<Rightarrow> world" where
  "fail_result neterr todo s =
     s\<lparr>futures := (\<lambda>f. if f \<in> snd ` set todo
                         then (futures s f)\<lparr>fut_err := Some neterr, fut_c_closed := True\<rparr>
                         else futures s f),
       conn := (conn s)\<lparr>requests := filter (\<lambda>e. fst e \<notin> fst ` set todo) (requests (conn s))\<rparr>\<rparr>"

text \<open>A run of \<open>n\<close> successive calls of \<open>nextRequestId\<close>: the ids returned, in order.\<close>

fun allocations :: "nat \<Rightarrow> Connection \<Rightarrow> 32 word list \<times> Connection" where
  "allocations 0 c = ([], c)"
| "allocations (Suc n) c =
     (case nextRequestId c of
        (i, c1) \<Rightarrow> (case allocations n c1 of (is, c2) \<Rightarrow> (i # is, c2)))"

text \<open>
  A connected connection with two requests in flight (ids 1 and 2, futures at the
  addresses 10 and 11), on socket 0, and the same world after \<open>Close()\<close>.
\<close>

definition ex_socket :: net_conn where
  "ex_socket = \<lparr>inbound = \<lparr>pending = [], fail = io_EOF\<rparr>, outbound = [], write_err = None,
                close_err = None, is_closed = False, wbuf = [], wr_err = None\<rparr>"

definition ex_future :: Future where
  "ex_future = \<lparr>fut_resp = None, fut_err = None, fut_c_closed = False\<rparr>"

definition ex_opts :: Opts where
  "ex_opts = \<lparr>Timeout = 500, Reconnect = 0, User = ''test'', Pass = ''test''\<rparr>"

definition ex_world :: world where
  "ex_world =
     \<lparr>conn = (fst (fst (Connect ''127.0.0.1:3013'' ex_opts)))
               \<lparr>connection := Some 0, conn_r := Some 0, conn_w := Some 0, requestId := 2,
                requests := [(1, 10), (2, 11)]\<rparr>,
      sockets = (\<lambda>_. ex_socket), next_sock = 1, futures = (\<lambda>_. ex_future),
      network = (\<lambda>_. []), log_lines = []\<rparr>"

definition ex_world_closed :: world where
  "ex_world_closed =
     ex_world
       \<lparr>conn := (conn ex_world)\<lparr>connection := None, conn_r := None, conn_w := None,
                                 requests := [], control_closed := True, closed := True\<rparr>,
        sockets := (sockets ex_world)(0 := ex_socket\<lparr>is_closed := True\<rparr>),
        futures := (futures ex_world)
          (10 := ex_future\<lparr>fut_err := Some ''client closed connection'', fut_c_closed := True\<rparr>,
           11 := ex_future\<lparr>fut_err := Some ''client closed connection'', fut_c_closed := True\<rparr>)\<rparr>"

text \<open>A socket that is open and whose writes do not fail.\<close>

definition healthy :: "net_conn \<Rightarrow> bool" where
  "healthy k = (\<not> is_closed k \<and> write_err k = None \<and> wr_err k = None)"

text \<open>
  The AUTH request \<open>writeAuthRequest\<close> is to build: opcode AUTH, the user name, and the
  tuple of the mechanism and the scramble.
\<close>

definition auth_request :: "Connection \<Rightarrow> byte list \<Rightarrow> Request" where
  "auth_request c scr =
     \<lparr>req_requestId = requestId c + 1, requestCode = AuthRequest,
      body = [KeyUserName \<mapsto> VStr (User (opts c)),
              KeyTuple \<mapsto> VArr [VStr ''chap-sha1'', VStr (go_string scr)]]\<rparr>"

text \<open>The world of \<open>dial\<close> once the greeting has been read from the socket \<open>c\<close>.\<close>

definition greeted :: "nat \<Rightarrow> net_conn \<Rightarrow> byte list \<Rightarrow> world \<Rightarrow> world" where
  "greeted c k1 got s1 =
     s1\<lparr>sockets := (sockets s1)(c := k1),
        conn := (conn s1)\<lparr>Greeting :=
          \<lparr>greeting_version = go_string (take 64 (got @ replicate (128 - length got) 0)),
           greeting_auth = go_string (take 44 (drop 64 (got @ replicate (128 - length got) 0)))\<rparr>\<rparr>\<rparr>"

text \<open>
  A toy codec for the examples: a packet is a frame of two bytes, the opcode or
  response code and the request id; and two peers, which send a greeting and answer
  the AUTH request with the given code.
\<close>

definition ex_deps :: deps where
  "ex_deps =
     \<lparr>scramble = (\<lambda>salt pass. if salt = [] then Inl ''empty salt'' else Inr [0x61, 0x62]),
      pack = (\<lambda>req. Inr [0xce, 0, 0, 0, 2, of_nat (requestCode req), ucast (req_requestId req)]),
      decodeHeader = (\<lambda>resp. case buf resp of
                         i # c # rest \<Rightarrow> Inr (resp\<lparr>RequestId := ucast i, Code := ucast c, buf := rest\<rparr>)
                       | _ \<Rightarrow> Inl ''unexpected end of stream''),
      decodeBody = (\<lambda>resp. if Code resp = 0 then Inr resp else Inl ''server error'')\<rparr>"

definition ex_peer :: "byte \<Rightarrow> net_conn" where
  "ex_peer code =
     ex_socket\<lparr>inbound := \<lparr>pending = [replicate 128 0x41, [0xce, 0, 0, 0, 2, 1, code]],
                            fail = io_EOF\<rparr>\<rparr>"

definition ex_net_world :: "net_conn list \<Rightarrow> world" where
  "ex_net_world peers =
     \<lparr>conn = fst (fst (Connect ''127.0.0.1:3013'' ex_opts)),
      sockets = (\<lambda>_. ex_socket), next_sock = 0, futures = (\<lambda>_. ex_future),
      network = (\<lambda>_. [])(''127.0.0.1:3013'' := map Inr peers), log_lines = []\<rparr>"

definition ex_auth_world :: "string \<Rightarrow> world" where
  "ex_auth_world user =
     \<lparr>conn = (fst (fst (Connect ''127.0.0.1:3013'' (ex_opts\<lparr>User := user\<rparr>))))
               \<lparr>Greeting := \<lparr>greeting_version = ''Tarantool'', greeting_auth = ''salt''\<rparr>\<rparr>,
      sockets = (\<lambda>_. ex_socket\<lparr>inbound := \<lparr>pending = [[0xce, 0, 0, 0, 2, 1, 0]], fail = io_EOF\<rparr>\<rparr>),
      next_sock = 1, futures = (\<lambda>_. ex_future), network = (\<lambda>_. []), log_lines = []\<rparr>"

definition ex_reader_world :: "byte list \<Rightarrow> world" where
  "ex_reader_world frame =
     ex_world\<lparr>sockets := (\<lambda>_. ex_socket\<lparr>inbound := \<lparr>pending = [frame], fail = io_EOF\<rparr>\<rparr>)\<rparr>"

text \<open>The five servers of the pool's tests, all live, with the given roles.\<close>

definition ex_pool :: "bool list \<Rightarrow> pool" where
  "ex_pool roles =
     \<lparr>instances = map (\<lambda>(a, ro). \<lparr>inst_addr = a, inst_ro = ro, inst_live = True\<rparr>)
        (zip [''127.0.0.1:3013'', ''127.0.0.1:3014'', ''127.0.0.1:3015'', ''127.0.0.1:3016'',
              ''127.0.0.1:3017''] roles),
      cursor = (\<lambda>_. 0), delegated = []\<rparr>"

section \<open>Properties\<close>

subsection \<open>\<open>io.ReadFull\<close> on the chunks\<close>

lemma fill_enough:
  "n \<le> length (concat cs) \<Longrightarrow>
     fst (fill n cs) = take n (concat cs) \<and>
     concat (fst (snd (fill n cs))) = drop n (concat cs) \<and>
     snd (snd (fill n cs))"
proof (induction n cs rule: fill.induct)
  case (1 cs)
  then show ?case by simp
next
  case (2 n)
  then show ?case by simp
next
  case (3 n c cs)
  show ?case
  proof (cases "length c < Suc n")
    case True
    with 3 have "Suc n - length c \<le> length (concat cs)" by simp
    with 3 True show ?thesis
      by (simp add: case_prod_beta)
  next
    case False
    then show ?thesis by (cases "length c = Suc n") simp_all
  qed
qed

lemma fill_short:
  "length (concat cs) < n \<Longrightarrow>
     fst (fill n cs) = concat cs \<and> fst (snd (fill n cs)) = [] \<and> \<not> snd (snd (fill n cs))"
proof (induction n cs rule: fill.induct)
  case (1 cs)
  then show ?case by simp
next
  case (2 n)
  then show ?case by simp
next
  case (3 n c cs)
  then have "length c < Suc n" by simp
  moreover from 3 have "length (concat cs) < Suc n - length c" by simp
  ultimately show ?case using 3 by (simp add: case_prod_beta)
qed

lemma ReadFull_enough:
  assumes "n \<le> length (bytes_of s)"
  shows "fst (ReadFull n s) = (take n (bytes_of s), None)"
    and "bytes_of (snd (ReadFull n s)) = drop n (bytes_of s)"
    and "fail (snd (ReadFull n s)) = fail s"
  using fill_enough [of n "pending s"] assms
  by (simp_all add: ReadFull_def bytes_of_def case_prod_beta)

lemma ReadFull_short:
  assumes "length (bytes_of s) < n"
  shows "fst (ReadFull n s) =
           (bytes_of s,
            Some (if bytes_of s = [] then fail s
                  else if fail s = io_EOF then io_ErrUnexpectedEOF else fail s))"
    and "bytes_of (snd (ReadFull n s)) = []"
  using fill_short [of "pending s" n] assms
  by (simp_all add: ReadFull_def bytes_of_def case_prod_beta)

lemma frame_length_be32:
  "frame_length [b0, b1, b2, b3, b4] = int (be32 b1 b2 b3 b4)"
  by (simp add: frame_length_def be32_def push_bit_eq_mult)

lemma frame_length_bounds:
  "0 \<le> frame_length [b0, b1, b2, b3, b4] \<and> frame_length [b0, b1, b2, b3, b4] < 2 ^ 32"
proof -
  have "uint b1 < 256" "uint b2 < 256" "uint b3 < 256" "uint b4 < 256"
    using uint_bounded [of b1] uint_bounded [of b2] uint_bounded [of b3] uint_bounded [of b4]
    by simp_all
  then show ?thesis
    by (simp add: frame_length_def push_bit_eq_mult)
qed


subsection \<open>The frame reader\<close>

lemma read_header_ok:
  assumes "bytes_of r = b0 # b1 # b2 # b3 # b4 # rest"
  shows "ReadFull PacketLengthBytes r
           = (([b0, b1, b2, b3, b4], None), snd (ReadFull PacketLengthBytes r))"
    and "bytes_of (snd (ReadFull PacketLengthBytes r)) = rest"
    and "fail (snd (ReadFull PacketLengthBytes r)) = fail r"
  using ReadFull_enough [of PacketLengthBytes r] assms
  by (simp_all add: PacketLengthBytes_def prod_eq_iff)

lemma read_too_short:
  assumes "length (bytes_of r) < 5"
  shows "\<exists>e. fst (read r) = Inl e"
  using ReadFull_short(1) [of r PacketLengthBytes] assms
  by (auto simp: read_def PacketLengthBytes_def split: prod.splits option.splits)

lemma read_cases:
  assumes "bytes_of r = b0 # b1 # b2 # b3 # b4 # rest"
  shows "fst (read r) =
          (if b0 \<noteq> 0xce then Inl ''Wrong reponse header''
           else if be32 b1 b2 b3 b4 = 0 then Inl ''Response should not be 0 length''
           else if length rest < be32 b1 b2 b3 b4 then
             Inl (if rest = [] then fail r
                  else if fail r = io_EOF then io_ErrUnexpectedEOF else fail r)
           else Inr (take (be32 b1 b2 b3 b4) rest))"
    and "bytes_of (snd (read r)) =
          (if b0 \<noteq> 0xce \<or> be32 b1 b2 b3 b4 = 0 then rest
           else drop (be32 b1 b2 b3 b4) rest)"
proof -
  let ?r1 = "snd (ReadFull PacketLengthBytes r)"
  let ?n = "be32 b1 b2 b3 b4"
  note h = read_header_ok [OF assms]
  have rd: "read r =
      (if b0 \<noteq> 0xce then (Inl ''Wrong reponse header'', ?r1)
       else if ?n = 0 then (Inl ''Response should not be 0 length'', ?r1)
       else (case ReadFull ?n ?r1 of
               ((response, Some err), r2) \<Rightarrow> (Inl err, r2)
             | ((response, None), r2) \<Rightarrow> (Inr response, r2)))"
    unfolding read_def by (subst h(1)) (simp add: frame_length_be32 Let_def)
  show "fst (read r) =
          (if b0 \<noteq> 0xce then Inl ''Wrong reponse header''
           else if be32 b1 b2 b3 b4 = 0 then Inl ''Response should not be 0 length''
           else if length rest < be32 b1 b2 b3 b4 then
             Inl (if rest = [] then fail r
                  else if fail r = io_EOF then io_ErrUnexpectedEOF else fail r)
           else Inr (take (be32 b1 b2 b3 b4) rest))"
  proof (cases "length rest < ?n")
    case True
    then have "fst (ReadFull ?n ?r1) = (rest, Some (if rest = [] then fail r
                  else if fail r = io_EOF then io_ErrUnexpectedEOF else fail r))"
      using ReadFull_short(1) [of ?r1 ?n] h(2,3) by simp
    then show ?thesis using True by (cases "ReadFull ?n ?r1") (auto simp: rd)
  next
    case False
    then have "fst (ReadFull ?n ?r1) = (take ?n rest, None)"
      using ReadFull_enough(1) [of ?n ?r1] h(2) by simp
    then show ?thesis using False by (cases "ReadFull ?n ?r1") (auto simp: rd)
  qed
  show "bytes_of (snd (read r)) =
          (if b0 \<noteq> 0xce \<or> be32 b1 b2 b3 b4 = 0 then rest
           else drop (be32 b1 b2 b3 b4) rest)"
  proof (cases "length rest < ?n")
    case True
    then have "bytes_of (snd (ReadFull ?n ?r1)) = []"
      using ReadFull_short(2) [of ?r1 ?n] h(2) by simp
    then show ?thesis using True h(2)
      by (cases "ReadFull ?n ?r1") (auto simp: rd split: option.splits)
  next
    case False
    then have "bytes_of (snd (ReadFull ?n ?r1)) = drop ?n rest"
      using ReadFull_enough(2) [of ?n ?r1] h(2) by simp
    then show ?thesis using False h(2)
      by (cases "ReadFull ?n ?r1") (auto simp: rd split: option.splits)
  qed
qed

text \<open>
  Claim C4.  A reader that ends before the five bytes of a length prefix makes \<open>read\<close>
  fail.  On a reader that still holds them, \<open>read\<close> takes exactly those five bytes first; it fails when the first is not \<open>0xCE\<close>, leaving
  what follows the prefix unread; otherwise the next four bytes, most significant
  first, are the length \<open>n\<close>, and \<open>read\<close> returns exactly the \<open>n\<close> bytes that follow and
  leaves the reader right behind them.  (A reader that ends inside the body gives the
  read error; the length 0 is refused, which is claim C10.)
\<close>

theorem read_frame:
  "(length (bytes_of r) < 5 \<longrightarrow> (\<exists>e. fst (read r) = Inl e)) \<and>
   (bytes_of r = b0 # b1 # b2 # b3 # b4 # rest \<longrightarrow>
      (b0 \<noteq> 0xce \<longrightarrow>
         fst (read r) = Inl ''Wrong reponse header'' \<and> bytes_of (snd (read r)) = rest) \<and>
      (b0 = 0xce \<and> 0 < be32 b1 b2 b3 b4 \<and> be32 b1 b2 b3 b4 \<le> length rest \<longrightarrow>
         fst (read r) = Inr (take (be32 b1 b2 b3 b4) rest) \<and>
         length (take (be32 b1 b2 b3 b4) rest) = be32 b1 b2 b3 b4 \<and>
         bytes_of (snd (read r)) = drop (be32 b1 b2 b3 b4) rest) \<and>
      (b0 = 0xce \<and> length rest < be32 b1 b2 b3 b4 \<longrightarrow>
         (\<exists>e. fst (read r) = Inl e) \<and> bytes_of (snd (read r)) = []))"
proof (intro conjI impI)
  assume "length (bytes_of r) < 5"
  then show "\<exists>e. fst (read r) = Inl e" by (rule read_too_short)
next
  assume h: "bytes_of r = b0 # b1 # b2 # b3 # b4 # rest"
  note c = read_cases [OF h]
  {
    assume "b0 \<noteq> 0xce"
    with c show "fst (read r) = Inl ''Wrong reponse header''" "bytes_of (snd (read r)) = rest"
      by simp_all
  next
    assume ok: "b0 = 0xce \<and> 0 < be32 b1 b2 b3 b4 \<and> be32 b1 b2 b3 b4 \<le> length rest"
    with c show "fst (read r) = Inr (take (be32 b1 b2 b3 b4) rest)"
      "bytes_of (snd (read r)) = drop (be32 b1 b2 b3 b4) rest"
      by simp_all
    from ok show "length (take (be32 b1 b2 b3 b4) rest) = be32 b1 b2 b3 b4" by simp
  next
    assume "b0 = 0xce \<and> length rest < be32 b1 b2 b3 b4"
    with c show "\<exists>e. fst (read r) = Inl e" "bytes_of (snd (read r)) = []"
      by auto
  }
qed

theorem read_frame_witness:
  "bytes_of \<lparr>pending = [[0xce, 0, 0], [0, 2, 7], [8, 9]], fail = io_EOF\<rparr>
     = [0xce, 0, 0, 0, 2, 7, 8, 9] \<and>
   be32 0 0 0 2 = 2 \<and>
   fst (read \<lparr>pending = [[0xce, 0, 0], [0, 2, 7], [8, 9]], fail = io_EOF\<rparr>) = Inr [7, 8] \<and>
   bytes_of (snd (read \<lparr>pending = [[0xce, 0, 0], [0, 2, 7], [8, 9]], fail = io_EOF\<rparr>)) = [9] \<and>
   fst (read \<lparr>pending = [[0xcd, 0, 0], [0, 2, 7], [8, 9]], fail = io_EOF\<rparr>)
     = Inl ''Wrong reponse header'' \<and>
   bytes_of (snd (read \<lparr>pending = [[0xcd, 0, 0], [0, 2, 7], [8, 9]], fail = io_EOF\<rparr>)) = [7, 8, 9]"
  using read_frame [of "\<lparr>pending = [[0xce, 0, 0], [0, 2, 7], [8, 9]], fail = io_EOF\<rparr>"
                       "0xce" 0 0 0 2 "[7, 8, 9]"]
    read_frame [of "\<lparr>pending = [[0xcd, 0, 0], [0, 2, 7], [8, 9]], fail = io_EOF\<rparr>"
                       "0xcd" 0 0 0 2 "[7, 8, 9]"]
  by (simp add: bytes_of_def be32_def)

subsection \<open>The registry at a disconnect\<close>

lemma fail_requests_pending:
  "distinct (map snd todo) \<Longrightarrow> \<forall>e \<in> set todo. \<not> fut_c_closed (futures s (snd e)) \<Longrightarrow>
     fail_requests neterr todo s = Done (fail_result neterr todo s)"
proof (induction todo arbitrary: s)
  case Nil
  then show ?case by (simp add: fail_result_def)
next
  case (Cons e todo)
  obtain rid fut where e: "e = (rid, fut)" by (cases e)
  let ?s3 = "s\<lparr>futures := (futures s)(fut := (futures s fut)\<lparr>fut_err := Some neterr, fut_c_closed := True\<rparr>),
                conn := (conn s)\<lparr>requests := map_delete rid (requests (conn s))\<rparr>\<rparr>"
  from Cons.prems e have nin: "fut \<notin> snd ` set todo" and d: "distinct (map snd todo)"
    and open_fut: "\<not> fut_c_closed (futures s fut)" by auto
  have pend: "\<forall>e \<in> set todo. \<not> fut_c_closed (futures ?s3 (snd e))"
    using Cons.prems(2) nin by auto
  have step: "fail_requests neterr (e # todo) s = fail_requests neterr todo ?s3"
    using open_fut by (simp add: e Let_def)
  have "fail_result neterr todo ?s3 = fail_result neterr (e # todo) s"
    using nin by (auto simp: fail_result_def e map_delete_def fun_eq_iff conj_commute)
  with Cons.IH [OF d pend] step show ?case by simp
qed


lemma closeConnection_connected:
  assumes "connection (conn s) = Some c"
      and "distinct (map snd (requests (conn s)))"
      and "\<forall>e \<in> set (requests (conn s)). \<not> fut_c_closed (futures s (snd e))"
  shows "closeConnection neterr s =
           Done (fst (net_Close (sockets s c)),
                 s\<lparr>sockets := (sockets s)(c := snd (net_Close (sockets s c))),
                   futures := (\<lambda>f. if f \<in> snd ` set (requests (conn s))
                                     then (futures s f)\<lparr>fut_err := Some neterr, fut_c_closed := True\<rparr>
                                     else futures s f),
                   conn := (conn s)\<lparr>connection := None, conn_r := None, conn_w := None,
                                    requests := []\<rparr>\<rparr>)"
proof -
  let ?s2 = "s\<lparr>sockets := (sockets s)(c := snd (net_Close (sockets s c))),
               conn := (conn s)\<lparr>connection := None, conn_r := None, conn_w := None\<rparr>\<rparr>"
  let ?t = "s\<lparr>sockets := (sockets s)(c := snd (net_Close (sockets s c))),
                   futures := (\<lambda>f. if f \<in> snd ` set (requests (conn s))
                                     then (futures s f)\<lparr>fut_err := Some neterr, fut_c_closed := True\<rparr>
                                     else futures s f),
                   conn := (conn s)\<lparr>connection := None, conn_r := None, conn_w := None,
                                    requests := []\<rparr>\<rparr>"
  have run: "fail_requests neterr (requests (conn ?s2)) ?s2
          = Done (fail_result neterr (requests (conn ?s2)) ?s2)"
    by (rule fail_requests_pending) (use assms in simp_all)
  have "filter (\<lambda>e. fst e \<notin> fst ` set (requests (conn s))) (requests (conn s)) = []"
    by (simp add: filter_empty_conv)
  then have res: "fail_result neterr (requests (conn ?s2)) ?s2 = ?t"
    by (simp add: fail_result_def cong: if_cong)
  have "closeConnection neterr s =
          bind_exec (fail_requests neterr (requests (conn ?s2)) ?s2)
            (\<lambda>s3. Done (fst (net_Close (sockets s c)), s3))"
    using assms(1) by (simp add: closeConnection_def case_prod_beta Let_def)
  also have "\<dots> = Done (fst (net_Close (sockets s c)), ?t)"
    unfolding run res by (simp add: bind_exec_def)
  finally show ?thesis .
qed

text \<open>
  Claim C1.  When the connection holds a socket and every future in the registry is
  pending (its channel not yet closed; a future is registered under one id only),
  \<open>closeConnection neterr\<close> returns without a panic, each of these futures has \<open>neterr\<close>
  as its error and its channel closed, no other future is touched, and the registry is
  empty.  A channel can be closed once only (the second \<open>close\<close> panics), and the loop
  visits each entry of the map once: that is the "exactly once".
\<close>

theorem closeConnection_fails_all:
  assumes "connection (conn s) = Some c"
      and "distinct (map snd (requests (conn s)))"
      and "\<forall>e \<in> set (requests (conn s)). \<not> fut_c_closed (futures s (snd e))"
  shows "\<exists>err s'. closeConnection neterr s = Done (err, s') \<and>
           requests (conn s') = [] \<and>
           connection (conn s') = None \<and>
           (\<forall>e \<in> set (requests (conn s)).
              futures s' (snd e) = (futures s (snd e))\<lparr>fut_err := Some neterr, fut_c_closed := True\<rparr>) \<and>
           (\<forall>f. f \<notin> snd ` set (requests (conn s)) \<longrightarrow> futures s' f = futures s f)"
  by (simp add: closeConnection_connected [OF assms])

theorem closeConnection_fails_all_witness:
  "\<exists>err s'. closeConnection ''EOF'' ex_world = Done (err, s') \<and>
     requests (conn s') = [] \<and>
     fut_err (futures s' 10) = Some ''EOF'' \<and> fut_c_closed (futures s' 10) \<and>
     fut_err (futures s' 11) = Some ''EOF'' \<and> fut_c_closed (futures s' 11) \<and>
     futures s' 12 = ex_future"
  using closeConnection_fails_all [of ex_world 0 "''EOF''"]
  by (auto simp: ex_world_def Connect_def ex_future_def)

subsection \<open>\<open>Close\<close> called twice\<close>

lemma fail_requests_conn:
  "fail_requests neterr todo s = Done s' \<Longrightarrow>
     \<exists>rs. conn s' = (conn s)\<lparr>requests := rs\<rparr>"
proof (induction todo arbitrary: s)
  case Nil
  then show ?case by (auto intro: exI [of _ "requests (conn s)"])
next
  case (Cons e todo)
  obtain rid fut where e: "e = (rid, fut)" by (cases e)
  from Cons.prems e show ?case
    by (auto simp: Let_def split: if_splits dest!: Cons.IH)
qed

lemma closeConnection_conn:
  assumes "closeConnection neterr s = Done (err, s')"
  shows "\<exists>rs. conn s' = (conn s)\<lparr>connection := None, conn_r := None, conn_w := None, requests := rs\<rparr>
               \<or> (connection (conn s) = None \<and> s' = s)"
  using assms
  by (auto simp: closeConnection_def bind_exec_def Let_def
      split: option.splits prod.splits exec.splits dest!: fail_requests_conn)

text \<open>
  Claim C2, as the code has it.  After a \<open>Close()\<close> that returned, the closed flag and the
  control channel are closed and there is no socket; a second \<open>Close()\<close> does not
  succeed: it panics at \<open>close(conn.control)\<close>.  The part that is idempotent is
  \<open>closeConnection\<close>: called again, it returns \<open>nil\<close> and changes nothing.
\<close>

theorem Close_not_idempotent:
  assumes "Close s = Done (err, s')"
  shows "closed (conn s') \<and> control_closed (conn s') \<and> connection (conn s') = None \<and>
         Close s' = Panic ''close of closed channel'' \<and>
         closeConnection neterr s' = Done (None, s')"
proof -
  from assms have c: "\<not> control_closed (conn s)"
    by (auto simp: Close_def Let_def split: if_splits)
  let ?s1 = "s\<lparr>conn := (conn s)\<lparr>closed := True, control_closed := True\<rparr>\<rparr>"
  from assms c have "closeConnection ''client closed connection'' ?s1 = Done (err, s')"
    by (simp add: Close_def Let_def)
  from closeConnection_conn [OF this]
  have flags: "closed (conn s') \<and> control_closed (conn s') \<and> connection (conn s') = None"
    by (auto simp: closeConnection_def split: option.splits)
  then show ?thesis
    by (simp add: Close_def closeConnection_def Let_def)
qed

theorem Close_not_idempotent_witness:
  "\<exists>err s'. Close ex_world = Done (err, s') \<and> closed (conn s') \<and>
     Close s' = Panic ''close of closed channel'' \<and>
     closeConnection ''EOF'' s' = Done (None, s')"
proof -
  have "\<exists>err s'. Close ex_world = Done (err, s')"
    by (simp add: Close_def closeConnection_def ex_world_def Connect_def ex_socket_def
        ex_future_def net_Close_def bind_exec_def map_delete_def Let_def)
  then obtain err s' where h: "Close ex_world = Done (err, s')" by blast
  from Close_not_idempotent [OF h, of "''EOF''"] h show ?thesis by blast
qed

text \<open>
  The claim as stated fails: the first \<open>Close()\<close> on the example connection closes the
  socket and fails both futures, the second one panics.
\<close>

theorem Close_twice_panics:
  "Close ex_world = Done (None, ex_world_closed) \<and>
   Close ex_world_closed = Panic ''close of closed channel''"
proof
  show "Close ex_world = Done (None, ex_world_closed)"
    by (simp add: Close_def closeConnection_def ex_world_def ex_world_closed_def Connect_def
        ex_socket_def ex_future_def net_Close_def bind_exec_def map_delete_def Let_def fun_upd_twist)
  show "Close ex_world_closed = Panic ''close of closed channel''"
    by (simp add: Close_def ex_world_closed_def Let_def)
qed

subsection \<open>Request ids\<close>

lemma allocations_ids:
  "fst (allocations n c) = map (\<lambda>k. requestId c + of_nat (Suc k)) [0..<n]"
proof (induction n arbitrary: c)
  case 0
  then show ?case by simp
next
  case (Suc n)
  have "fst (allocations (Suc n) c)
          = (requestId c + 1) # map (\<lambda>k. requestId c + 1 + of_nat (Suc k)) [0..<n]"
    by (simp add: nextRequestId_def case_prod_beta Suc.IH)
  also have "\<dots> = map (\<lambda>k. requestId c + of_nat (Suc k)) [0..<Suc n]"
    unfolding map_upt_Suc by (simp add: ac_simps)
  finally show ?case .
qed

lemma allocations_counter:
  "requestId (snd (allocations n c)) = requestId c + of_nat n"
  by (induction n arbitrary: c) (simp_all add: nextRequestId_def case_prod_beta)

lemma unat_add_small:
  assumes "unat (x :: 32 word) + k < 2 ^ 32"
  shows "unat (x + of_nat k) = unat x + k"
  using assms by (simp add: unat_word_ariths unat_of_nat take_bit_nat_eq_self_iff)

lemma ids_increasing:
  assumes "unat (x :: 32 word) + n < 2 ^ 32"
  shows "sorted_wrt (<) (map (\<lambda>k. x + of_nat (Suc k)) [0..<n])"
    and "\<forall>i \<in> set (map (\<lambda>k. x + of_nat (Suc k)) [0..<n]). x < i"
proof -
  have un: "unat (x + of_nat (Suc k)) = unat x + Suc k" if "k < n" for k
    using assms that by (intro unat_add_small) simp
  show "sorted_wrt (<) (map (\<lambda>k. x + of_nat (Suc k)) [0..<n])"
    unfolding sorted_wrt_iff_nth_less
    by (auto simp: word_less_nat_alt un simp del: of_nat_Suc)
  show "\<forall>i \<in> set (map (\<lambda>k. x + of_nat (Suc k)) [0..<n]). x < i"
    by (auto simp: word_less_nat_alt un simp del: of_nat_Suc)
qed

lemma ids_distinct:
  assumes "n \<le> 2 ^ 32"
  shows "distinct (map (\<lambda>k. (x :: 32 word) + of_nat (Suc k)) [0..<n])"
proof -
  have "inj_on (\<lambda>k. x + (of_nat (Suc k) :: 32 word)) {0..<n}"
  proof (rule inj_onI)
    fix a b assume a: "a \<in> {0..<n}" and b: "b \<in> {0..<n}"
      and "x + (of_nat (Suc a) :: 32 word) = x + of_nat (Suc b)"
    then have "(of_nat a :: 32 word) = of_nat b" by simp
    then have "a mod 2 ^ 32 = b mod 2 ^ 32"
      by (simp add: word_of_nat_eq_iff take_bit_eq_mod)
    with a b assms show "a = b" by simp
  qed
  then show ?thesis
    by (simp add: distinct_map)
qed

text \<open>
  Claim C8, as the code has it.  An allocation returns the counter plus one modulo
  \<open>2 ^ 32\<close> and stores it.  As long as the counter does not pass \<open>2 ^ 32 - 1\<close> the ids of a
  run are strictly increasing and all greater than the counter before the run; any run
  of at most \<open>2 ^ 32\<close> allocations returns pairwise distinct ids.  \<open>atomic.AddUint32\<close> is
  one indivisible step, so concurrent callers are a run in some order.
\<close>

theorem nextRequestId_increasing_until_wrap:
  "fst (nextRequestId c) = requestId c + 1 \<and>
   requestId (snd (nextRequestId c)) = requestId c + 1 \<and>
   (unat (requestId c) + n < 2 ^ 32 \<longrightarrow>
      sorted_wrt (<) (fst (allocations n c)) \<and>
      (\<forall>i \<in> set (fst (allocations n c)). requestId c < i)) \<and>
   (n \<le> 2 ^ 32 \<longrightarrow> distinct (fst (allocations n c)))"
  using ids_increasing [of "requestId c" n] ids_distinct [of n "requestId c"]
  by (simp add: allocations_ids nextRequestId_def)

theorem nextRequestId_increasing_until_wrap_witness:
  "unat (requestId (fst (fst (Connect ''127.0.0.1:3013'' ex_opts)))) + 3 < (2 ^ 32 :: nat) \<and>
   fst (allocations 3 (fst (fst (Connect ''127.0.0.1:3013'' ex_opts)))) = [1, 2, 3] \<and>
   sorted_wrt (<) (fst (allocations 3 (fst (fst (Connect ''127.0.0.1:3013'' ex_opts))))) \<and>
   distinct (fst (allocations 3 (fst (fst (Connect ''127.0.0.1:3013'' ex_opts)))))"
  using nextRequestId_increasing_until_wrap [of "fst (fst (Connect ''127.0.0.1:3013'' ex_opts))" 3]
  by (simp add: Connect_def allocations_ids upt_rec)

text \<open>
  The claim as stated fails at the wrap: after \<open>2 ^ 32 - 1\<close> allocations on a fresh
  connection the counter is \<open>0xFFFFFFFF\<close>, and the next id is 0, smaller than the one
  before it.
\<close>

theorem nextRequestId_wraps:
  "requestId (snd (allocations 4294967295 (fst (fst (Connect ''127.0.0.1:3013'' ex_opts))))) = 0xFFFFFFFF \<and>
   fst (nextRequestId (snd (allocations 4294967295 (fst (fst (Connect ''127.0.0.1:3013'' ex_opts)))))) = 0"
  by (simp add: allocations_counter nextRequestId_def Connect_def)



subsection \<open>\<open>Connect\<close>\<close>

text \<open>
  Claim C3, as the code has it.  \<open>Connect\<close> never dials: for every address and options it
  returns no error and a connection without socket, reader or writer, having only started
  the writer and the reader goroutine; the dial, the greeting and the authentication
  are left to \<open>createConnection\<close>, which these goroutines call.
\<close>

theorem Connect_is_asynchronous:
  "snd (fst (Connect a os)) = None \<and>
   connection (fst (fst (Connect a os))) = None \<and>
   conn_r (fst (fst (Connect a os))) = None \<and>
   conn_w (fst (fst (Connect a os))) = None \<and>
   snd (Connect a os) = [Writer, Reader]"
  by (simp add: Connect_def)

text \<open>
  The claim as stated fails: \<open>Connect\<close> returns without an error also where nothing
  listens, and the \<open>dial\<close> of that very connection is refused.
\<close>

theorem Connect_without_server:
  "snd (fst (Connect ''127.0.0.1:3013'' ex_opts)) = None \<and>
   conn (ex_net_world []) = fst (fst (Connect ''127.0.0.1:3013'' ex_opts)) \<and>
   connection (conn (ex_net_world [])) = None \<and>
   dial ex_deps (ex_net_world []) = Done (Some ''dial tcp: connection refused'', ex_net_world [])"
  by (simp add: dial_def net_Dial_def ex_net_world_def Connect_def)

subsection \<open>The authentication handshake\<close>

lemma write_Done:
  "write data k =
     (case wr_err k of Some e \<Rightarrow> Done (Some e, k)
      | None \<Rightarrow> Done (None, k\<lparr>wbuf := wbuf k @ data\<rparr>))"
  by (simp add: write_def bufio_Write_def split: option.splits)

lemma bufio_Flush_healthy:
  "healthy k \<Longrightarrow> bufio_Flush k = (None, k\<lparr>outbound := outbound k @ wbuf k, wbuf := []\<rparr>)"
  by (cases "wbuf k = []") (auto simp: healthy_def bufio_Flush_def net_Write_def)

lemma writeAuthRequest_healthy:
  assumes "pack d (auth_request (conn s) scr) = Inr packet" and "healthy (sockets s w)"
  shows "writeAuthRequest d w scr s =
           Done (None,
             s\<lparr>conn := (conn s)\<lparr>requestId := requestId (conn s) + 1\<rparr>,
               sockets := (sockets s)
                 (w := (sockets s w)\<lparr>outbound := outbound (sockets s w) @ wbuf (sockets s w) @ packet,
                                     wbuf := []\<rparr>)\<rparr>)"
proof -
  let ?k = "sockets s w"
  have h: "healthy (?k\<lparr>wbuf := wbuf ?k @ packet\<rparr>)"
    using assms(2) by (simp add: healthy_def)
  have w: "wr_err ?k = None" using assms(2) by (simp add: healthy_def)
  show ?thesis
    using assms(1) w bufio_Flush_healthy [OF h]
    by (simp add: writeAuthRequest_def NewRequest_def nextRequestId_def auth_request_def
        write_Done bind_exec_def Let_def)
qed

lemma bufio_Flush_frame:
  "bufio_Flush k = (err, k1) \<Longrightarrow> inbound k1 = inbound k \<and> is_closed k1 = is_closed k"
  by (auto simp: bufio_Flush_def net_Write_def split: option.splits if_splits)

lemma writeAuthRequest_total:
  "\<exists>res. writeAuthRequest d w scr s = Done res"
  by (auto simp: writeAuthRequest_def NewRequest_def nextRequestId_def
      write_Done bind_exec_def Let_def split: option.splits prod.splits sum.splits)

lemma writeAuthRequest_frame:
  assumes "writeAuthRequest d w scr s = Done (err, s')"
  shows "conn s' = (conn s)\<lparr>requestId := requestId (conn s) + 1\<rparr>"
    and "\<forall>x. x \<noteq> w \<longrightarrow> sockets s' x = sockets s x"
    and "inbound (sockets s' w) = inbound (sockets s w)"
    and "is_closed (sockets s' w) = is_closed (sockets s w)"
    and "futures s' = futures s" and "network s' = network s"
    and "next_sock s' = next_sock s" and "log_lines s' = log_lines s"
  using assms
  by (auto simp: writeAuthRequest_def NewRequest_def nextRequestId_def
      write_Done bind_exec_def Let_def
      split: option.splits prod.splits sum.splits dest: bufio_Flush_frame)

lemma sock_read_frame:
  "sock_read k = (res, k1) \<Longrightarrow> is_closed k1 = is_closed k \<and> outbound k1 = outbound k
     \<and> wbuf k1 = wbuf k \<and> wr_err k1 = wr_err k \<and> write_err k1 = write_err k"
  by (auto simp: sock_read_def split: if_splits prod.splits)

lemma sock_read_depends:
  "inbound k' = inbound k \<Longrightarrow> is_closed k' = is_closed k \<Longrightarrow>
     fst (sock_read k') = fst (sock_read k)"
  by (simp add: sock_read_def case_prod_beta)

lemma readAuthResponse_frame:
  assumes "readAuthResponse d r s = (err, s')"
  shows "conn s' = conn s"
    and "\<forall>x. x \<noteq> r \<longrightarrow> sockets s' x = sockets s x"
    and "is_closed (sockets s' r) = is_closed (sockets s r)"
    and "outbound (sockets s' r) = outbound (sockets s r)"
    and "futures s' = futures s" and "network s' = network s"
    and "next_sock s' = next_sock s" and "log_lines s' = log_lines s"
  using assms
  by (auto simp: readAuthResponse_def Let_def
      split: prod.splits sum.splits dest: sock_read_frame)

lemma readAuthResponse_ok:
  "fst (readAuthResponse d r s) = None \<longleftrightarrow>
     (\<exists>resp_bytes resp resp1. fst (sock_read (sockets s r)) = Inr resp_bytes \<and>
        decodeHeader d (new_Response resp_bytes) = Inr resp \<and> decodeBody d resp = Inr resp1)"
  by (auto simp: readAuthResponse_def Let_def split: prod.splits sum.splits)

lemma auth_cases:
  obtains (quiet) e where "auth d r w s = Done (e, s)"
  | (wfail) wh scr e s1 where "w = Some wh" "writeAuthRequest d wh scr s = Done (Some e, s1)"
      "auth d r w s = Done (Some e, s1)"
  | (run) rh wh scr s1 where "r = Some rh" "w = Some wh"
      "User (opts (conn s)) \<noteq> []" "greeting_auth (Greeting (conn s)) \<noteq> []"
      "scramble d (greeting_auth (Greeting (conn s))) (Pass (opts (conn s))) = Inr scr"
      "writeAuthRequest d wh scr s = Done (None, s1)"
      "auth d r w s = Done (readAuthResponse d rh s1)"
proof (cases "User (opts (conn s)) = []")
  case True
  then have "auth d r w s = Done (None, s)" by (simp add: auth_def)
  then show ?thesis by (rule quiet)
next
  case user: False
  show ?thesis
  proof (cases "\<exists>rh wh. r = Some rh \<and> w = Some wh")
    case False
    then have "auth d r w s = Done (Some ''auth: reader/writer not ready'', s)"
      using user by (auto simp: auth_def split: option.splits)
    then show ?thesis by (rule quiet)
  next
    case True
    then obtain rh wh where rw: "r = Some rh" "w = Some wh" by blast
    show ?thesis
    proof (cases "greeting_auth (Greeting (conn s)) = []")
      case True
      then have "auth d r w s = Done (Some ''auth: empty greeting'', s)"
        using user rw by (simp add: auth_def)
      then show ?thesis by (rule quiet)
    next
      case salt: False
      show ?thesis
      proof (cases "scramble d (greeting_auth (Greeting (conn s))) (Pass (opts (conn s)))")
        case (Inl e)
        then have "auth d r w s = Done (Some (''auth: scrambling failure '' @ e), s)"
          using user rw salt by (simp add: auth_def)
        then show ?thesis by (rule quiet)
      next
        case (Inr scr)
        obtain err s1 where wr: "writeAuthRequest d wh scr s = Done (err, s1)"
          using writeAuthRequest_total [of d wh scr s] by auto
        show ?thesis
        proof (cases err)
          case None
          with wr have "auth d r w s = Done (readAuthResponse d rh s1)"
            using user rw salt Inr by (simp add: auth_def bind_exec_def)
          with None wr show ?thesis using rw user salt Inr by (intro run) simp_all
        next
          case (Some e)
          with wr have "auth d r w s = Done (Some e, s1)"
            using user rw salt Inr by (simp add: auth_def bind_exec_def)
          with Some wr show ?thesis using rw by (intro wfail) simp_all
        qed
      qed
    qed
  qed
qed

lemma auth_total: "\<exists>res. auth d r w s = Done res"
  by (cases rule: auth_cases [of d r w s]) auto

lemma auth_frame:
  assumes "auth d r w s = Done (err, s')"
  shows "(conn s' = conn s \<or> conn s' = (conn s)\<lparr>requestId := requestId (conn s) + 1\<rparr>) \<and>
         (\<forall>x. is_closed (sockets s' x) = is_closed (sockets s x)) \<and>
         futures s' = futures s \<and> network s' = network s \<and>
         next_sock s' = next_sock s \<and> log_lines s' = log_lines s"
proof (cases rule: auth_cases [of d r w s])
  case (quiet e)
  with assms show ?thesis by simp
next
  case (wfail wh scr e s1)
  with assms have s1: "s1 = s'" by simp
  note wf = writeAuthRequest_frame [OF wfail(2) [unfolded s1]]
  have "\<forall>x. is_closed (sockets s' x) = is_closed (sockets s x)"
    using wf(2,4) by metis
  with wf show ?thesis by simp
next
  case (run rh wh scr s1)
  with assms have rd: "readAuthResponse d rh s1 = (err, s')" by simp
  note wf = writeAuthRequest_frame [OF run(6)] and rf = readAuthResponse_frame [OF rd]
  have "\<forall>x. is_closed (sockets s' x) = is_closed (sockets s x)"
    using wf(2,4) rf(2,3) by metis
  with wf rf show ?thesis by simp
qed


lemma net_Dial_frame:
  assumes "net_Dial a s = (res, s1)"
  shows "conn s1 = conn s" and "futures s1 = futures s" and "log_lines s1 = log_lines s"
    and "\<forall>c. res = Inr c \<longrightarrow> \<not> is_closed (sockets s1 c)"
  using assms
  by (auto simp: net_Dial_def fresh_socket_def split: list.splits sum.splits)

lemma is_closed_net_Close: "is_closed (snd (net_Close k))"
  by (simp add: net_Close_def)

lemma net_Read_length:
  "net_Read n k = ((got, err), k1) \<Longrightarrow> length got \<le> n"
  by (auto simp: net_Read_def stream_Read_def split: if_splits list.splits)

lemma dial_cases:
  obtains (refused) e s1 where "net_Dial (addr (conn s)) s = (Inl e, s1)"
      "dial d s = Done (Some e, s1)"
  | (nogreet) c s1 got e k1 where "net_Dial (addr (conn s)) s = (Inr c, s1)"
      "net_Read 128 (sockets s1 c) = ((got, Some e), k1)"
      "dial d s = Done (Some e, s1\<lparr>sockets := (sockets s1)(c := snd (net_Close k1))\<rparr>)"
  | (authfail) c s1 got k1 e s3 where "net_Dial (addr (conn s)) s = (Inr c, s1)"
      "net_Read 128 (sockets s1 c) = ((got, None), k1)"
      "auth d (Some c) (Some c) (greeted c k1 got s1) = Done (Some e, s3)"
      "dial d s = Done (Some e, s3\<lparr>sockets := (sockets s3)(c := snd (net_Close (sockets s3 c)))\<rparr>)"
  | (ok) c s1 got k1 s3 where "net_Dial (addr (conn s)) s = (Inr c, s1)"
      "net_Read 128 (sockets s1 c) = ((got, None), k1)"
      "auth d (Some c) (Some c) (greeted c k1 got s1) = Done (None, s3)"
      "dial d s = Done (None, s3\<lparr>conn := (conn s3)\<lparr>connection := Some c, conn_r := Some c,
                                                     conn_w := Some c\<rparr>\<rparr>)"
proof -
  obtain res s1 where nd: "net_Dial (addr (conn s)) s = (res, s1)"
    by (cases "net_Dial (addr (conn s)) s")
  show ?thesis
  proof (cases res)
    case (Inl e)
    with nd have "dial d s = Done (Some e, s1)" by (simp add: dial_def)
    with nd Inl show ?thesis by (intro refused) simp_all
  next
    case (Inr c)
    obtain got rerr k1 where nr: "net_Read 128 (sockets s1 c) = ((got, rerr), k1)"
      by (cases "net_Read 128 (sockets s1 c)") auto
    show ?thesis
    proof (cases rerr)
      case (Some e)
      with nd Inr nr
      have "dial d s = Done (Some e, s1\<lparr>sockets := (sockets s1)(c := snd (net_Close k1))\<rparr>)"
        by (simp add: dial_def)
      with nd Inr nr Some show ?thesis by (intro nogreet) simp_all
    next
      case None
      obtain aerr s3 where au: "auth d (Some c) (Some c) (greeted c k1 got s1) = Done (aerr, s3)"
        using auth_total [of d "Some c" "Some c" "greeted c k1 got s1"] by auto
      have dl: "dial d s =
          (case aerr of
             Some e \<Rightarrow> Done (Some e, s3\<lparr>sockets := (sockets s3)(c := snd (net_Close (sockets s3 c)))\<rparr>)
           | None \<Rightarrow> Done (None, s3\<lparr>conn := (conn s3)\<lparr>connection := Some c, conn_r := Some c,
                                                         conn_w := Some c\<rparr>\<rparr>))"
        using nd Inr nr None au [unfolded greeted_def]
        by (simp add: dial_def Let_def bind_exec_def)
      show ?thesis
      proof (cases aerr)
        case none: None
        with dl nd Inr nr None au show ?thesis by (intro ok) simp_all
      next
        case (Some e)
        with dl nd Inr nr None au show ?thesis by (intro authfail) simp_all
      qed
    qed
  qed
qed

lemma greeted_conn:
  "\<exists>g. conn (greeted c k1 got s1) = (conn s1)\<lparr>Greeting := g\<rparr>"
  unfolding greeted_def by (rule exI) simp

lemma fill_Nil: "0 < n \<Longrightarrow> fill n [] = ([], [], False)"
  by (cases n) simp_all

lemma fill_Cons:
  "0 < n \<Longrightarrow> fill n (c # cs) =
     (if length c < n then
        (case fill (n - length c) cs of (got, rest, ok) \<Rightarrow> (c @ got, rest, ok))
      else if length c = n then (c, cs, True)
      else (take n c, drop n c # cs, True))"
  by (cases n) simp_all

lemma ex_read_frame:
  "read \<lparr>pending = [[0xce, 0, 0, 0, 2, 1, code]], fail = io_EOF\<rparr>
     = (Inr [1, code], \<lparr>pending = [], fail = io_EOF\<rparr>)"
  by (simp add: read_def ReadFull_def PacketLengthBytes_def frame_length_def fill_Cons)

lemmas ex_run_defs = dial_def net_Dial_def ex_net_world_def Connect_def ex_peer_def ex_socket_def
      fresh_socket_def net_Read_def stream_Read_def auth_def ex_opts_def ex_deps_def go_string_def
      writeAuthRequest_def NewRequest_def nextRequestId_def write_Done bufio_Flush_def net_Write_def
      readAuthResponse_def sock_read_def ex_read_frame new_Response_def net_Close_def
      bind_exec_def Let_def AuthRequest_def

lemma auth_guest: "User (opts (conn s)) = [] \<Longrightarrow> auth d r w s = Done (None, s)"
  by (simp add: auth_def)

lemma auth_sends:
  assumes "User (opts (conn s)) \<noteq> []" and "greeting_auth (Greeting (conn s)) \<noteq> []"
      and "scramble d (greeting_auth (Greeting (conn s))) (Pass (opts (conn s))) = Inr scr"
      and "pack d (auth_request (conn s) scr) = Inr packet"
      and "healthy (sockets s wh)"
  shows "\<exists>err s'. auth d (Some rh) (Some wh) s = Done (err, s') \<and>
           outbound (sockets s' wh) = outbound (sockets s wh) @ wbuf (sockets s wh) @ packet \<and>
           (err = None \<longleftrightarrow>
              (\<exists>resp_bytes resp resp1.
                 fst (sock_read (sockets s rh)) = Inr resp_bytes \<and>
                 decodeHeader d (new_Response resp_bytes) = Inr resp \<and>
                 decodeBody d resp = Inr resp1))"
proof -
  let ?k = "sockets s wh"
  let ?s1 = "s\<lparr>conn := (conn s)\<lparr>requestId := requestId (conn s) + 1\<rparr>,
               sockets := (sockets s)
                 (wh := ?k\<lparr>outbound := outbound ?k @ wbuf ?k @ packet, wbuf := []\<rparr>)\<rparr>"
  have wr: "writeAuthRequest d wh scr s = Done (None, ?s1)"
    by (rule writeAuthRequest_healthy [OF assms(4,5)])
  have au: "auth d (Some rh) (Some wh) s = Done (readAuthResponse d rh ?s1)"
    using assms(1,2,3) wr by (simp add: auth_def bind_exec_def)
  obtain err s' where rd: "readAuthResponse d rh ?s1 = (err, s')"
    by (cases "readAuthResponse d rh ?s1")
  note rf = readAuthResponse_frame [OF rd]
  have out: "outbound (sockets s' wh) = outbound ?k @ wbuf ?k @ packet"
  proof (cases "wh = rh")
    case True
    with rf(4) show ?thesis by simp
  next
    case False
    with rf(2) show ?thesis by simp
  qed
  have "fst (sock_read (sockets ?s1 rh)) = fst (sock_read (sockets s rh))"
    by (rule sock_read_depends) simp_all
  with readAuthResponse_ok [of d rh ?s1] rd
  have "err = None \<longleftrightarrow>
          (\<exists>resp_bytes resp resp1.
             fst (sock_read (sockets s rh)) = Inr resp_bytes \<and>
             decodeHeader d (new_Response resp_bytes) = Inr resp \<and>
             decodeBody d resp = Inr resp1)"
    by simp
  with au rd out show ?thesis by simp
qed

lemma greeted_salt_length:
  assumes "net_Read 128 k = ((got, err), k1)"
  shows "length (greeting_auth (Greeting (conn (greeted c k1 got s1)))) = 44"
  using net_Read_length [OF assms] by (simp add: greeted_def go_string_def)

lemma dial_auth_fatal:
  assumes "net_Dial (addr (conn s)) s = (Inr c, s1)"
      and "net_Read 128 (sockets s1 c) = ((got, None), k1)"
      and "auth d (Some c) (Some c) (greeted c k1 got s1) = Done (Some e, s3)"
  shows "\<exists>s'. dial d s = Done (Some e, s') \<and> connection (conn s') = connection (conn s) \<and>
           conn_r (conn s') = conn_r (conn s) \<and> conn_w (conn s') = conn_w (conn s) \<and>
           is_closed (sockets s' c)"
proof -
  have "dial d s =
      Done (Some e, s3\<lparr>sockets := (sockets s3)(c := snd (net_Close (sockets s3 c)))\<rparr>)"
    using assms(1,2) assms(3) [unfolded greeted_def]
    by (simp add: dial_def Let_def bind_exec_def)
  moreover have "connection (conn s3) = connection (conn s) \<and> conn_r (conn s3) = conn_r (conn s)
      \<and> conn_w (conn s3) = conn_w (conn s)"
    using auth_frame [OF assms(3)] net_Dial_frame(1) [OF assms(1)]
    by (auto simp: greeted_def)
  ultimately show ?thesis by (simp add: is_closed_net_Close)
qed

text \<open>
  Claim C5.  With an empty user name \<open>auth\<close> returns \<open>nil\<close> and does nothing at all.  With
  a user name, a greeting salt, a scramble and a packed request, on a socket that
  takes writes, \<open>auth\<close> sends exactly the packed AUTH request (opcode AUTH, the user name,
  the tuple \<open>["chap-sha1", scramble]\<close> with the scramble of the salt and the password;
  in \<open>dial\<close> the salt is the 44 bytes 64..107 of the greeting) and then waits for the
  response: it succeeds exactly when a frame arrives and its header and body decode
  without error.  Whatever error \<open>auth\<close> returns, \<open>dial\<close> returns it, closes the socket
  and assigns no socket to the connection.
\<close>

theorem auth_handshake:
  "(User (opts (conn s)) = [] \<longrightarrow> auth d r w s = Done (None, s)) \<and>
   (User (opts (conn s)) \<noteq> [] \<and> greeting_auth (Greeting (conn s)) \<noteq> [] \<and>
    scramble d (greeting_auth (Greeting (conn s))) (Pass (opts (conn s))) = Inr scr \<and>
    pack d (auth_request (conn s) scr) = Inr packet \<and> healthy (sockets s wh) \<longrightarrow>
      (\<exists>err s'. auth d (Some rh) (Some wh) s = Done (err, s') \<and>
         outbound (sockets s' wh) = outbound (sockets s wh) @ wbuf (sockets s wh) @ packet \<and>
         (err = None \<longleftrightarrow>
            (\<exists>resp_bytes resp resp1.
               fst (sock_read (sockets s rh)) = Inr resp_bytes \<and>
               decodeHeader d (new_Response resp_bytes) = Inr resp \<and>
               decodeBody d resp = Inr resp1)))) \<and>
   (net_Dial (addr (conn s)) s = (Inr c, s1) \<and>
    net_Read 128 (sockets s1 c) = ((got, None), k1) \<longrightarrow>
      length (greeting_auth (Greeting (conn (greeted c k1 got s1)))) = 44 \<and>
      (auth d (Some c) (Some c) (greeted c k1 got s1) = Done (Some e, s3) \<longrightarrow>
         (\<exists>s'. dial d s = Done (Some e, s') \<and> connection (conn s') = connection (conn s) \<and>
            conn_r (conn s') = conn_r (conn s) \<and> conn_w (conn s') = conn_w (conn s) \<and>
            is_closed (sockets s' c))))"
  using auth_guest [of s d r w] auth_sends [of s d scr packet wh rh]
    greeted_salt_length [of "sockets s1 c" got None k1 c s1]
    dial_auth_fatal [of s c s1 got k1 d e s3]
  by blast

theorem auth_handshake_witness:
  "auth ex_deps None None (ex_auth_world []) = Done (None, ex_auth_world []) \<and>
   (\<exists>s'. auth ex_deps (Some 0) (Some 0) (ex_auth_world ''test'') = Done (None, s') \<and>
      outbound (sockets s' 0) = [0xce, 0, 0, 0, 2, 7, 1]) \<and>
   (\<exists>s'. dial ex_deps (ex_net_world [ex_peer 1])
            = Done (Some ''auth: decode response body error server error'', s') \<and>
      connection (conn s') = None \<and> is_closed (sockets s' 0))"
proof (intro conjI)
  show "auth ex_deps None None (ex_auth_world []) = Done (None, ex_auth_world [])"
    using auth_handshake [of "ex_auth_world []" ex_deps None None]
    by (simp add: ex_auth_world_def Connect_def)
next
  have rd: "fst (sock_read (sockets (ex_auth_world ''test'') 0)) = Inr [1, 0]"
    by (simp add: ex_auth_world_def sock_read_def ex_socket_def ex_read_frame)
  have "\<exists>err s'. auth ex_deps (Some 0) (Some 0) (ex_auth_world ''test'') = Done (err, s') \<and>
         outbound (sockets s' 0) = [0xce, 0, 0, 0, 2, 7, 1] \<and>
         (err = None \<longleftrightarrow>
            (\<exists>resp_bytes resp resp1.
               fst (sock_read (sockets (ex_auth_world ''test'') 0)) = Inr resp_bytes \<and>
               decodeHeader ex_deps (new_Response resp_bytes) = Inr resp \<and>
               decodeBody ex_deps resp = Inr resp1))"
    using auth_handshake [of "ex_auth_world ''test''" ex_deps _ _ "[0x61, 0x62]"
                             "[0xce, 0, 0, 0, 2, 7, 1]" 0 0]
    by (simp add: ex_auth_world_def Connect_def ex_opts_def ex_deps_def auth_request_def
        AuthRequest_def healthy_def ex_socket_def)
  then show "\<exists>s'. auth ex_deps (Some 0) (Some 0) (ex_auth_world ''test'') = Done (None, s') \<and>
      outbound (sockets s' 0) = [0xce, 0, 0, 0, 2, 7, 1]"
    unfolding rd by (auto simp: ex_deps_def new_Response_def)
next
  have "\<exists>s1 k1 s3.
      net_Dial (addr (conn (ex_net_world [ex_peer 1]))) (ex_net_world [ex_peer 1]) = (Inr 0, s1) \<and>
      net_Read 128 (sockets s1 0) = ((replicate 128 0x41, None), k1) \<and>
      auth ex_deps (Some 0) (Some 0) (greeted 0 k1 (replicate 128 0x41) s1)
        = Done (Some ''auth: decode response body error server error'', s3)"
    by (simp add: ex_run_defs greeted_def)
  then obtain s1 k1 s3 where
      "net_Dial (addr (conn (ex_net_world [ex_peer 1]))) (ex_net_world [ex_peer 1]) = (Inr 0, s1)"
      "net_Read 128 (sockets s1 0) = ((replicate 128 0x41, None), k1)"
      "auth ex_deps (Some 0) (Some 0) (greeted 0 k1 (replicate 128 0x41) s1)
        = Done (Some ''auth: decode response body error server error'', s3)"
    by blast
  with auth_handshake [of "ex_net_world [ex_peer 1]" ex_deps _ _ _ _ _ _ 0 s1
        "replicate 128 0x41" k1 "''auth: decode response body error server error''" s3]
  show "\<exists>s'. dial ex_deps (ex_net_world [ex_peer 1])
            = Done (Some ''auth: decode response body error server error'', s') \<and>
      connection (conn s') = None \<and> is_closed (sockets s' 0)"
    by (auto simp: ex_net_world_def Connect_def)
qed

subsection \<open>\<open>dial\<close>\<close>

text \<open>
  Claim C9.  \<open>dial\<close> always returns.  When it returns no error, the TCP dial gave a
  socket, the greeting read and \<open>auth\<close> succeeded, and only then \<open>connection\<close>, \<open>r\<close> and \<open>w\<close>
  were set to the new socket.  When it returns an error, \<open>connection\<close>, \<open>r\<close> and \<open>w\<close> are
  what they were (so a disconnected connection stays disconnected), the socket, if
  one was dialed, is closed, and of the whole struct only the greeting and the request
  id counter can differ.
\<close>

theorem dial_atomic:
  "\<exists>err s'. dial d s = Done (err, s') \<and>
     (err = None \<longrightarrow>
        (\<exists>c s1 got k1 s3.
           net_Dial (addr (conn s)) s = (Inr c, s1) \<and>
           net_Read 128 (sockets s1 c) = ((got, None), k1) \<and>
           auth d (Some c) (Some c) (greeted c k1 got s1) = Done (None, s3) \<and>
           connection (conn s') = Some c \<and> conn_r (conn s') = Some c \<and>
           conn_w (conn s') = Some c)) \<and>
     (err \<noteq> None \<longrightarrow>
        connection (conn s') = connection (conn s) \<and>
        conn_r (conn s') = conn_r (conn s) \<and>
        conn_w (conn s') = conn_w (conn s) \<and>
        (\<exists>g rid. conn s' = (conn s)\<lparr>Greeting := g, requestId := rid\<rparr>) \<and>
        (\<forall>c s1. net_Dial (addr (conn s)) s = (Inr c, s1) \<longrightarrow> is_closed (sockets s' c)))"
proof (cases rule: dial_cases [of s d])
  case (refused e s1)
  have "conn s1 = (conn s)\<lparr>Greeting := Greeting (conn s), requestId := requestId (conn s)\<rparr>"
    using net_Dial_frame(1) [OF refused(1)] by simp
  then have "\<exists>g rid. conn s1 = (conn s)\<lparr>Greeting := g, requestId := rid\<rparr>" by blast
  with refused net_Dial_frame(1) [OF refused(1)] show ?thesis by simp
next
  case (nogreet c s1 got e k1)
  have "conn s1 = (conn s)\<lparr>Greeting := Greeting (conn s), requestId := requestId (conn s)\<rparr>"
    using net_Dial_frame(1) [OF nogreet(1)] by simp
  then have "\<exists>g rid. conn s1 = (conn s)\<lparr>Greeting := g, requestId := rid\<rparr>" by blast
  with nogreet net_Dial_frame(1) [OF nogreet(1)] show ?thesis
    by (simp add: is_closed_net_Close)
next
  case (authfail c s1 got k1 e s3)
  note af = auth_frame [OF authfail(3)]
  obtain g where g: "conn (greeted c k1 got s1) = (conn s)\<lparr>Greeting := g\<rparr>"
    using greeted_conn [of c k1 got s1] net_Dial_frame(1) [OF authfail(1)] by auto
  from af g have "conn s3 = (conn s)\<lparr>Greeting := g, requestId := requestId (conn s)\<rparr>
      \<or> conn s3 = (conn s)\<lparr>Greeting := g, requestId := requestId (conn s) + 1\<rparr>"
    by auto
  then have ex: "\<exists>g rid. conn s3 = (conn s)\<lparr>Greeting := g, requestId := rid\<rparr>" by blast
  then have "connection (conn s3) = connection (conn s) \<and> conn_r (conn s3) = conn_r (conn s)
      \<and> conn_w (conn s3) = conn_w (conn s)" by auto
  with authfail ex show ?thesis by (simp add: is_closed_net_Close)
next
  case (ok c s1 got k1 s3)
  then show ?thesis by auto
qed


theorem dial_atomic_witness:
  "\<exists>s'. dial ex_deps (ex_net_world [ex_peer 1])
          = Done (Some ''auth: decode response body error server error'', s') \<and>
        connection (conn s') = None \<and> conn_r (conn s') = None \<and> conn_w (conn s') = None \<and>
        is_closed (sockets s' 0)"
proof -
  have run: "\<exists>s'. dial ex_deps (ex_net_world [ex_peer 1])
          = Done (Some ''auth: decode response body error server error'', s')"
    by (simp add: ex_run_defs)
  have nd: "\<exists>s1. net_Dial (addr (conn (ex_net_world [ex_peer 1]))) (ex_net_world [ex_peer 1])
          = (Inr 0, s1)"
    by (simp add: net_Dial_def ex_net_world_def Connect_def)
  have c0: "connection (conn (ex_net_world [ex_peer 1])) = None"
    "conn_r (conn (ex_net_world [ex_peer 1])) = None"
    "conn_w (conn (ex_net_world [ex_peer 1])) = None"
    by (simp_all add: ex_net_world_def Connect_def)
  from dial_atomic [of ex_deps "ex_net_world [ex_peer 1]"] run nd c0
  show ?thesis by auto
qed


subsection \<open>The reader goroutine\<close>

lemma map_of_map_delete:
  "map_of (map_delete k m) i = (if i = k then None else map_of m i)"
  by (induction m) (auto simp: map_delete_def)

lemma reader_step_connected:
  assumes "conn_r (conn s) = Some rh"
  shows "reader_step fuel d s =
     (case sock_read (sockets s rh) of
        (res, k) \<Rightarrow>
          let s2 = s\<lparr>sockets := (sockets s)(rh := k)\<rparr> in
          case res of
            Inl err \<Rightarrow> bind_exec (closeConnection err s2) (\<lambda>(e, s3). Done (Continue, s3))
          | Inr resp_bytes \<Rightarrow>
              (case decodeHeader d (new_Response resp_bytes) of
                 Inl err \<Rightarrow> bind_exec (closeConnection err s2) (\<lambda>(e, s3). Done (Continue, s3))
               | Inr resp \<Rightarrow>
                   (case map_of (requests (conn s)) (RequestId resp) of
                      Some fut \<Rightarrow>
                        if fut_c_closed (futures s fut) then Panic ''close of closed channel''
                        else Done (Continue,
                          s2\<lparr>conn := (conn s)\<lparr>requests :=
                                map_delete (RequestId resp) (requests (conn s))\<rparr>,
                             futures := (futures s)
                               (fut := (futures s fut)\<lparr>fut_resp := Some resp,
                                                       fut_c_closed := True\<rparr>)\<rparr>)
                    | None \<Rightarrow>
                        Done (Continue,
                          s2\<lparr>log_lines := log_lines s @
                            [(''tarantool: unexpected requestId (%d) in response'',
                              unat (RequestId resp))]\<rparr>))))"
  using assms
  by (simp add: reader_step_def bind_exec_def Let_def
      split: prod.splits sum.splits option.splits)

text \<open>
  Claim C6.  In an iteration of the reader on a connected connection in which a frame
  was read and its header decoded: if the registry has a (pending) future under the
  response's request id, the entry is deleted, every other entry stays, and that
  future, and no other, gets the response and is completed; if the registry has no
  such id, the registry and the futures are unchanged and one line, the unexpected
  request id, is logged.  Either way the loop goes on.
\<close>

theorem reader_dispatch:
  assumes "conn_r (conn s) = Some rh"
      and "sock_read (sockets s rh) = (Inr resp_bytes, k)"
      and "decodeHeader d (new_Response resp_bytes) = Inr resp"
  shows "(\<forall>fut. map_of (requests (conn s)) (RequestId resp) = Some fut \<and>
                \<not> fut_c_closed (futures s fut) \<longrightarrow>
            (\<exists>s'. reader_step fuel d s = Done (Continue, s') \<and>
               map_of (requests (conn s')) (RequestId resp) = None \<and>
               (\<forall>i. i \<noteq> RequestId resp \<longrightarrow>
                  map_of (requests (conn s')) i = map_of (requests (conn s)) i) \<and>
               futures s' = (futures s)
                 (fut := (futures s fut)\<lparr>fut_resp := Some resp, fut_c_closed := True\<rparr>) \<and>
               log_lines s' = log_lines s)) \<and>
         (map_of (requests (conn s)) (RequestId resp) = None \<longrightarrow>
            (\<exists>s'. reader_step fuel d s = Done (Continue, s') \<and>
               requests (conn s') = requests (conn s) \<and>
               futures s' = futures s \<and>
               log_lines s' = log_lines s @
                 [(''tarantool: unexpected requestId (%d) in response'', unat (RequestId resp))]))"
  using assms(2,3)
  by (simp add: reader_step_connected [OF assms(1)] map_of_map_delete)


lemma ex_sock_read:
  "sock_read (sockets (ex_reader_world [0xce, 0, 0, 0, 2, i, c]) 0)
     = (Inr [i, c], ex_socket\<lparr>inbound := \<lparr>pending = [], fail = io_EOF\<rparr>\<rparr>)"
  by (simp add: ex_reader_world_def sock_read_def ex_socket_def read_def ReadFull_def
      PacketLengthBytes_def frame_length_def fill_Cons)

theorem reader_dispatch_witness:
  "(\<exists>s'. reader_step 0 ex_deps (ex_reader_world [0xce, 0, 0, 0, 2, 1, 0]) = Done (Continue, s') \<and>
      map_of (requests (conn s')) 1 = None \<and> map_of (requests (conn s')) 2 = Some 11 \<and>
      futures s' 10 = \<lparr>fut_resp = Some \<lparr>RequestId = 1, Code = 0, Error = [], Data = [], buf = []\<rparr>,
                        fut_err = None, fut_c_closed = True\<rparr> \<and>
      futures s' 11 = ex_future) \<and>
   (\<exists>s'. reader_step 0 ex_deps (ex_reader_world [0xce, 0, 0, 0, 2, 7, 0]) = Done (Continue, s') \<and>
      requests (conn s') = [(1, 10), (2, 11)] \<and> futures s' = (\<lambda>_. ex_future) \<and>
      log_lines s' = [(''tarantool: unexpected requestId (%d) in response'', 7)])"
proof
  have "decodeHeader ex_deps (new_Response [1, 0])
          = Inr \<lparr>RequestId = 1, Code = 0, Error = [], Data = [], buf = []\<rparr>"
    by (simp add: ex_deps_def new_Response_def)
  from reader_dispatch [OF _ ex_sock_read this, of 0]
  show "\<exists>s'. reader_step 0 ex_deps (ex_reader_world [0xce, 0, 0, 0, 2, 1, 0]) = Done (Continue, s') \<and>
      map_of (requests (conn s')) 1 = None \<and> map_of (requests (conn s')) 2 = Some 11 \<and>
      futures s' 10 = \<lparr>fut_resp = Some \<lparr>RequestId = 1, Code = 0, Error = [], Data = [], buf = []\<rparr>,
                        fut_err = None, fut_c_closed = True\<rparr> \<and>
      futures s' 11 = ex_future"
    by (auto simp: ex_reader_world_def ex_world_def Connect_def ex_future_def)
next
  have "decodeHeader ex_deps (new_Response [7, 0])
          = Inr \<lparr>RequestId = 7, Code = 0, Error = [], Data = [], buf = []\<rparr>"
    by (simp add: ex_deps_def new_Response_def)
  from reader_dispatch [OF _ ex_sock_read this, of 0]
  show "\<exists>s'. reader_step 0 ex_deps (ex_reader_world [0xce, 0, 0, 0, 2, 7, 0]) = Done (Continue, s') \<and>
      requests (conn s') = [(1, 10), (2, 11)] \<and> futures s' = (\<lambda>_. ex_future) \<and>
      log_lines s' = [(''tarantool: unexpected requestId (%d) in response'', 7)]"
    by (auto simp: ex_reader_world_def ex_world_def Connect_def)
qed

lemma fill_ok_length:
  "snd (snd (fill n cs)) \<Longrightarrow> length (fst (fill n cs)) = n"
  by (induction n cs rule: fill.induct) (auto simp: case_prod_beta)

lemma ReadFull_ok_length:
  "ReadFull n r = ((got, None), r1) \<Longrightarrow> length got = n"
  using fill_ok_length [of n "pending r"]
  by (auto simp: ReadFull_def case_prod_beta split: if_splits)

lemma frame_length_nonneg: "0 \<le> frame_length lenbuf"
  by (simp add: frame_length_def)

lemma read_body_nonempty:
  assumes "fst (read r) = Inr payload"
  shows "payload \<noteq> []"
proof -
  obtain lenbuf r1 where hd: "ReadFull PacketLengthBytes r = ((lenbuf, None), r1)"
    using assms by (auto simp: read_def split: prod.splits option.splits)
  with assms have nz: "frame_length lenbuf \<noteq> 0"
    by (auto simp: read_def Let_def split: if_splits)
  with hd assms obtain r2 where "ReadFull (nat (frame_length lenbuf)) r1 = ((payload, None), r2)"
    by (auto simp: read_def Let_def split: if_splits prod.splits option.splits)
  then have "length payload = nat (frame_length lenbuf)" by (rule ReadFull_ok_length)
  with nz frame_length_nonneg [of lenbuf] show ?thesis by auto
qed

text \<open>
  Claim C10.  On a frame whose prefix declares the length 0, \<open>read\<close> returns the error
  "Response should not be 0 length" and has consumed the five prefix bytes only; what
  \<open>read\<close> does return is never empty; and the reader goroutine, given such a frame,
  goes straight to \<open>closeConnection\<close> with that error, whatever the decoder is, as does
  \<open>readAuthResponse\<close>, which returns the error: no decoder sees the frame.
\<close>

theorem zero_length_frame_refused:
  "(bytes_of r = 0xce # b1 # b2 # b3 # b4 # rest \<and> be32 b1 b2 b3 b4 = 0 \<longrightarrow>
      fst (read r) = Inl ''Response should not be 0 length'' \<and> bytes_of (snd (read r)) = rest) \<and>
   (\<forall>payload. fst (read r) = Inr payload \<longrightarrow> payload \<noteq> []) \<and>
   (conn_r (conn s) = Some rh \<and> \<not> is_closed (sockets s rh) \<and>
    bytes_of (inbound (sockets s rh)) = 0xce # b1 # b2 # b3 # b4 # rest \<and>
    be32 b1 b2 b3 b4 = 0 \<longrightarrow>
      reader_step fuel d s =
        bind_exec
          (closeConnection ''Response should not be 0 length''
             (s\<lparr>sockets := (sockets s)
                  (rh := (sockets s rh)\<lparr>inbound := snd (read (inbound (sockets s rh)))\<rparr>)\<rparr>))
          (\<lambda>(e, s3). Done (Continue, s3)) \<and>
      fst (readAuthResponse d rh s) = Some ''auth: read error Response should not be 0 length'')"
proof (intro conjI impI allI)
  assume h: "bytes_of r = 0xce # b1 # b2 # b3 # b4 # rest \<and> be32 b1 b2 b3 b4 = 0"
  then show "fst (read r) = Inl ''Response should not be 0 length''"
    using read_cases(1) [of r "0xce" b1 b2 b3 b4 rest] by simp
  from h show "bytes_of (snd (read r)) = rest"
    using read_cases(2) [of r "0xce" b1 b2 b3 b4 rest] by simp
next
  fix payload assume "fst (read r) = Inr payload"
  then show "payload \<noteq> []" by (rule read_body_nonempty)
next
  assume h: "conn_r (conn s) = Some rh \<and> \<not> is_closed (sockets s rh) \<and>
    bytes_of (inbound (sockets s rh)) = 0xce # b1 # b2 # b3 # b4 # rest \<and>
    be32 b1 b2 b3 b4 = 0"
  then have rd: "fst (read (inbound (sockets s rh))) = Inl ''Response should not be 0 length''"
    using read_cases(1) [of "inbound (sockets s rh)" "0xce" b1 b2 b3 b4 rest] by simp
  with h show "reader_step fuel d s =
        bind_exec
          (closeConnection ''Response should not be 0 length''
             (s\<lparr>sockets := (sockets s)
                  (rh := (sockets s rh)\<lparr>inbound := snd (read (inbound (sockets s rh)))\<rparr>)\<rparr>))
          (\<lambda>(e, s3). Done (Continue, s3))"
    by (simp add: reader_step_connected sock_read_def case_prod_beta Let_def)
  from h rd show "fst (readAuthResponse d rh s)
      = Some ''auth: read error Response should not be 0 length''"
    by (simp add: readAuthResponse_def sock_read_def case_prod_beta Let_def)
qed

theorem zero_length_frame_refused_witness:
  "fst (read \<lparr>pending = [[0xce, 0, 0, 0, 0, 7]], fail = io_EOF\<rparr>)
     = Inl ''Response should not be 0 length'' \<and>
   bytes_of (snd (read \<lparr>pending = [[0xce, 0, 0, 0, 0, 7]], fail = io_EOF\<rparr>)) = [7] \<and>
   fst (read \<lparr>pending = [[0xce, 0, 0, 0, 2, 1, 0]], fail = io_EOF\<rparr>) = Inr [1, 0] \<and>
   (\<exists>s'. reader_step 0 ex_deps (ex_reader_world [0xce, 0, 0, 0, 0, 7]) = Done (Continue, s') \<and>
      connection (conn s') = None \<and> requests (conn s') = [] \<and>
      fut_err (futures s' 10) = Some ''Response should not be 0 length'' \<and>
      fut_resp (futures s' 10) = None)"
proof (intro conjI)
  note z = zero_length_frame_refused
    [of "\<lparr>pending = [[0xce, 0, 0, 0, 0, 7]], fail = io_EOF\<rparr>" 0 0 0 0 "[7]"
        "ex_reader_world [0xce, 0, 0, 0, 0, 7]" 0 0 ex_deps]
  have pre: "bytes_of \<lparr>pending = [[0xce, 0, 0, 0, 0, 7]], fail = io_EOF\<rparr> = [0xce, 0, 0, 0, 0, 7]"
    "be32 0 0 0 0 = 0"
    by (simp_all add: bytes_of_def be32_def)
  from z pre show "fst (read \<lparr>pending = [[0xce, 0, 0, 0, 0, 7]], fail = io_EOF\<rparr>)
     = Inl ''Response should not be 0 length''" by simp
  from z pre show "bytes_of (snd (read \<lparr>pending = [[0xce, 0, 0, 0, 0, 7]], fail = io_EOF\<rparr>)) = [7]"
    by simp
  show "fst (read \<lparr>pending = [[0xce, 0, 0, 0, 2, 1, 0]], fail = io_EOF\<rparr>) = Inr [1, 0]"
    by (simp add: ex_read_frame)
  have "reader_step 0 ex_deps (ex_reader_world [0xce, 0, 0, 0, 0, 7]) =
        bind_exec
          (closeConnection ''Response should not be 0 length''
             ((ex_reader_world [0xce, 0, 0, 0, 0, 7])
                \<lparr>sockets := (sockets (ex_reader_world [0xce, 0, 0, 0, 0, 7]))
                  (0 := (sockets (ex_reader_world [0xce, 0, 0, 0, 0, 7]) 0)
                     \<lparr>inbound := snd (read (inbound (sockets (ex_reader_world [0xce, 0, 0, 0, 0, 7]) 0)))\<rparr>)\<rparr>))
          (\<lambda>(e, s3). Done (Continue, s3))"
    using z pre by (simp add: ex_reader_world_def ex_world_def ex_socket_def Connect_def bytes_of_def)
  then show "\<exists>s'. reader_step 0 ex_deps (ex_reader_world [0xce, 0, 0, 0, 0, 7]) = Done (Continue, s') \<and>
      connection (conn s') = None \<and> requests (conn s') = [] \<and>
      fut_err (futures s' 10) = Some ''Response should not be 0 length'' \<and>
      fut_resp (futures s' 10) = None"
    by (simp add: closeConnection_def ex_reader_world_def ex_world_def ex_socket_def Connect_def
        ex_future_def net_Close_def bind_exec_def map_delete_def Let_def)
qed


subsection \<open>The pool's routing errors\<close>

text \<open>
  Claim C7.  An operation in mode \<open>RW\<close> on a pool whose RW set is empty returns the error
  "Can't find rw instance in pool", one in mode \<open>RO\<close> on a pool whose RO set is empty
  returns "Can't find ro instance in pool"; in both cases the pool is unchanged, so
  nothing was delegated, and the result does not depend on what a connection would
  answer.
\<close>

theorem pool_routing_errors:
  "(rw_set p = [] \<longrightarrow> pool_op conn_op op RW p = (Inl ''Can't find rw instance in pool'', p)) \<and>
   (ro_set p = [] \<longrightarrow> pool_op conn_op op RO p = (Inl ''Can't find ro instance in pool'', p))"
  by (simp add: pool_op_def route_def round_robin_def ErrNoRwInstance_def ErrNoRoInstance_def)

theorem pool_routing_errors_witness:
  "rw_set (ex_pool [True, True, True, True, True]) = [] \<and>
   pool_op (\<lambda>a op. Inr []) ''Eval'' RW (ex_pool [True, True, True, True, True])
     = (Inl ''Can't find rw instance in pool'', ex_pool [True, True, True, True, True]) \<and>
   delegated (snd (pool_op (\<lambda>a op. Inr []) ''Eval'' RW (ex_pool [True, True, True, True, True]))) = [] \<and>
   ro_set (ex_pool [False, False, False, False, False]) = [] \<and>
   pool_op (\<lambda>a op. Inr []) ''Eval'' RO (ex_pool [False, False, False, False, False])
     = (Inl ''Can't find ro instance in pool'', ex_pool [False, False, False, False, False])"
  using pool_routing_errors [of "ex_pool [True, True, True, True, True]" "\<lambda>a op. Inr []" "''Eval''"]
    pool_routing_errors [of "ex_pool [False, False, False, False, False]" "\<lambda>a op. Inr []" "''Eval''"]
  by (simp add: ex_pool_def rw_set_def ro_set_def)


end
